theory Spec2Isabelle
  imports
    Complex_Main
    "HOL-Library.Product_Lexorder"
    "HOL-Library.Option_ord"
    "HOL-Library.AList"
begin

section \<open>Python values and the JSON codec used for the \<open>value\<close> column\<close>

text \<open>
  \<open>persistent_buffer.py\<close> stores \<open>BufferedMessage.value\<close> in a TEXT column:
  \<open>json.dumps(message.value)\<close> unless the value is a \<open>str\<close>, and reads it back with
  \<open>json.loads\<close>. The values modelled are the JSON-serialisable Python objects built from
  \<open>None\<close>, \<open>bool\<close>, \<open>int\<close>, \<open>str\<close>, \<open>list\<close> and \<open>dict\<close> with string keys. A \<open>str\<close>
  is a list of code points below 256 (one \<open>char\<close> each). Python \<open>float\<close> is not modelled:
  the floating-point data types are outside this embedding, and \<open>json_loads\<close> below gives
  no result on a document that holds a float literal.
\<close>

datatype py_value =
    PNone
  | PBool bool
  | PInt int
  | PStr string
  | PList "py_value list"
  | PDict "(string \<times> py_value) list"


text \<open>Python truthiness, as used by \<open>if message.metadata\<close> and \<open>if row['value']\<close>.\<close>

fun py_truthy :: "py_value \<Rightarrow> bool" where
  "py_truthy PNone = False"
| "py_truthy (PBool b) = b"
| "py_truthy (PInt i) = (i \<noteq> 0)"
| "py_truthy (PStr s) = (s \<noteq> [])"
| "py_truthy (PList vs) = (vs \<noteq> [])"
| "py_truthy (PDict kvs) = (kvs \<noteq> [])"

subsection \<open>\<open>json.dumps\<close> with its default arguments\<close>

definition digit_char :: "nat \<Rightarrow> char" where
  "digit_char d = char_of (48 + d)"

fun nat_str :: "nat \<Rightarrow> string" where
  "nat_str n = (if n < 10 then [digit_char n] else nat_str (n div 10) @ [digit_char (n mod 10)])"

declare nat_str.simps [simp del]

definition int_str :: "int \<Rightarrow> string" where
  "int_str i = (if i < 0 then CHR ''-'' # nat_str (nat (- i)) else nat_str (nat i))"

definition hex_char :: "nat \<Rightarrow> char" where
  "hex_char d = (if d < 10 then char_of (48 + d) else char_of (87 + d))"

text \<open>
  \<open>ensure_ascii=True\<close>: the quote, the backslash and every character outside
  \<open>' '..'~'\<close> is escaped, the named control characters by their short form, the others as
  \<open>\uXXXX\<close> in lower-case hexadecimal.
\<close>

definition escape_char :: "char \<Rightarrow> string" where
  "escape_char c =
     (if c = CHR 0x22 then [CHR 0x5C, CHR 0x22]
      else if c = CHR 0x5C then [CHR 0x5C, CHR 0x5C]
      else if c = CHR 0x0A then [CHR 0x5C, CHR ''n'']
      else if c = CHR 0x0D then [CHR 0x5C, CHR ''r'']
      else if c = CHR 0x09 then [CHR 0x5C, CHR ''t'']
      else if c = CHR 0x08 then [CHR 0x5C, CHR ''b'']
      else if c = CHR 0x0C then [CHR 0x5C, CHR ''f'']
      else if (of_char c :: nat) < 0x20 \<or> 0x7E < (of_char c :: nat) then
        [CHR 0x5C, CHR ''u'', CHR ''0'', CHR ''0'',
         hex_char ((of_char c :: nat) div 16), hex_char ((of_char c :: nat) mod 16)]
      else [c])"

definition encode_basestring_ascii :: "string \<Rightarrow> string" where
  "encode_basestring_ascii s = CHR 0x22 # concat (map escape_char s) @ [CHR 0x22]"

fun join :: "string \<Rightarrow> string list \<Rightarrow> string" where
  "join sep [] = []"
| "join sep [x] = x"
| "join sep (x # y # ys) = x @ sep @ join sep (y # ys)"

fun json_dumps :: "py_value \<Rightarrow> string" where
  "json_dumps PNone = ''null''"
| "json_dumps (PBool b) = (if b then ''true'' else ''false'')"
| "json_dumps (PInt i) = int_str i"
| "json_dumps (PStr s) = encode_basestring_ascii s"
| "json_dumps (PList vs) = ''['' @ join '', '' (map json_dumps vs) @ '']''"
| "json_dumps (PDict kvs) =
     ''{'' @ join '', ''
        (map (\<lambda>kv. encode_basestring_ascii (fst kv) @ '': '' @ json_dumps (snd kv)) kvs) @ ''}''"

subsection \<open>\<open>json.loads\<close>\<close>

text \<open>
  The decoder follows \<open>json.decoder\<close> and \<open>json.scanner\<close>: white space is skipped
  where the library skips it, a number is the longest match of \<open>-?(0|[1-9]\d*)\<close>, strings
  are scanned in strict mode, an object becomes \<open>dict(pairs)\<close>, and anything left after the
  value is an error. \<open>None\<close> is \<open>JSONDecodeError\<close>. Documents that Python decodes to
  values outside the model also give \<open>None\<close> here: those with a float literal, with
  \<open>NaN\<close> or \<open>Infinity\<close>, or with a \<open>\uXXXX\<close> escape of a code point above 255.
  The recursion of the scanner is bounded by fuel, one unit for each nested call;
  \<open>json_loads\<close> starts it with more fuel than the text has characters.
\<close>

definition is_ws :: "char \<Rightarrow> bool" where
  "is_ws c = (c = CHR '' '' \<or> c = CHR 0x09 \<or> c = CHR 0x0A \<or> c = CHR 0x0D)"

definition skip_ws :: "string \<Rightarrow> string" where
  "skip_ws s = dropWhile is_ws s"

definition is_digit :: "char \<Rightarrow> bool" where
  "is_digit c = (48 \<le> (of_char c :: nat) \<and> (of_char c :: nat) \<le> 57)"

definition digit_val :: "char \<Rightarrow> nat" where
  "digit_val c = of_char c - 48"

definition digits_val :: "string \<Rightarrow> nat" where
  "digits_val ds = foldl (\<lambda>a c. 10 * a + digit_val c) 0 ds"

definition scan_digits :: "string \<Rightarrow> (nat \<times> string) option" where
  "scan_digits s =
     (case s of
        [] \<Rightarrow> None
      | c # cs \<Rightarrow>
          if c = CHR ''0'' then Some (0, cs)
          else if is_digit c then
            Some (digits_val (c # takeWhile is_digit cs), dropWhile is_digit cs)
          else None)"

definition float_tail :: "string \<Rightarrow> bool" where
  "float_tail r =
     (case r of
        [] \<Rightarrow> False
      | c # cs \<Rightarrow>
          if c = CHR ''.'' then (case cs of [] \<Rightarrow> False | d # ds \<Rightarrow> is_digit d)
          else if c = CHR ''e'' \<or> c = CHR ''E'' then
            (case cs of
               [] \<Rightarrow> False
             | d # ds \<Rightarrow>
                 if d = CHR ''-'' \<or> d = CHR ''+'' then
                   (case ds of [] \<Rightarrow> False | e # es \<Rightarrow> is_digit e)
                 else is_digit d)
          else False)"

definition scan_number :: "string \<Rightarrow> (int \<times> string) option" where
  "scan_number s =
     (case (case s of
              [] \<Rightarrow> None
            | c # cs \<Rightarrow>
                if c = CHR ''-'' then map_option (\<lambda>(n, r). (- int n, r)) (scan_digits cs)
                else map_option (\<lambda>(n, r). (int n, r)) (scan_digits s)) of
        None \<Rightarrow> None
      | Some (i, r) \<Rightarrow> if float_tail r then None else Some (i, r))"

definition hex_val :: "char \<Rightarrow> nat option" where
  "hex_val c =
     (let n = (of_char c :: nat) in
      if 48 \<le> n \<and> n \<le> 57 then Some (n - 48)
      else if 97 \<le> n \<and> n \<le> 102 then Some (n - 87)
      else if 65 \<le> n \<and> n \<le> 70 then Some (n - 55)
      else None)"

definition decode_uXXXX :: "char \<Rightarrow> char \<Rightarrow> char \<Rightarrow> char \<Rightarrow> nat option" where
  "decode_uXXXX a b c d =
     (case (hex_val a, hex_val b, hex_val c, hex_val d) of
        (Some x, Some y, Some z, Some w) \<Rightarrow> Some (((x * 16 + y) * 16 + z) * 16 + w)
      | _ \<Rightarrow> None)"

definition BACKSLASH :: "char \<Rightarrow> char option" where
  "BACKSLASH e =
     (if e = CHR 0x22 then Some (CHR 0x22)
      else if e = CHR 0x5C then Some (CHR 0x5C)
      else if e = CHR ''/'' then Some (CHR ''/'')
      else if e = CHR ''b'' then Some (CHR 0x08)
      else if e = CHR ''f'' then Some (CHR 0x0C)
      else if e = CHR ''n'' then Some (CHR 0x0A)
      else if e = CHR ''r'' then Some (CHR 0x0D)
      else if e = CHR ''t'' then Some (CHR 0x09)
      else None)"

text \<open>\<open>scanstring\<close> reads the text after the opening quote up to the closing one.\<close>

fun scanstring :: "string \<Rightarrow> (string \<times> string) option" where
  "scanstring [] = None"
| "scanstring (c # cs) =
     (if c = CHR 0x22 then Some ([], cs)
      else if c = CHR 0x5C then
        (case cs of
           [] \<Rightarrow> None
         | e # r \<Rightarrow>
             if e = CHR ''u'' then
               (case r of
                  h1 # h2 # h3 # h4 # r' \<Rightarrow>
                    (case decode_uXXXX h1 h2 h3 h4 of
                       None \<Rightarrow> None
                     | Some u \<Rightarrow>
                         if u < 256 then
                           map_option (\<lambda>(t, r''). (char_of u # t, r'')) (scanstring r')
                         else None)
                | _ \<Rightarrow> None)
             else
               (case BACKSLASH e of
                  None \<Rightarrow> None
                | Some d \<Rightarrow> map_option (\<lambda>(t, r'). (d # t, r')) (scanstring r)))
      else if (of_char c :: nat) < 0x20 then None
      else map_option (\<lambda>(t, r). (c # t, r)) (scanstring cs))"

text \<open>\<open>dict(pairs)\<close>: a repeated key keeps its first position and takes the last value.\<close>

definition py_dict :: "(string \<times> py_value) list \<Rightarrow> (string \<times> py_value) list" where
  "py_dict pairs = foldl (\<lambda>d kv. AList.update (fst kv) (snd kv) d) [] pairs"

fun scan_once :: "nat \<Rightarrow> string \<Rightarrow> (py_value \<times> string) option"
  and parse_array :: "nat \<Rightarrow> string \<Rightarrow> (py_value list \<times> string) option"
  and parse_object :: "nat \<Rightarrow> string \<Rightarrow> ((string \<times> py_value) list \<times> string) option"
where
  "scan_once 0 s = None"
| "scan_once (Suc n) s =
     (case s of
        [] \<Rightarrow> None
      | c # cs \<Rightarrow>
          if c = CHR 0x22 then map_option (\<lambda>(t, r). (PStr t, r)) (scanstring cs)
          else if c = CHR ''{'' then
            (case skip_ws cs of
               [] \<Rightarrow> None
             | d # r \<Rightarrow>
                 if d = CHR ''}'' then Some (PDict [], r)
                 else map_option (\<lambda>(kvs, r'). (PDict (py_dict kvs), r')) (parse_object n (d # r)))
          else if c = CHR ''['' then
            (case skip_ws cs of
               [] \<Rightarrow> None
             | d # r \<Rightarrow>
                 if d = CHR '']'' then Some (PList [], r)
                 else map_option (\<lambda>(vs, r'). (PList vs, r')) (parse_array n (d # r)))
          else if take 4 s = ''null'' then Some (PNone, drop 4 s)
          else if take 4 s = ''true'' then Some (PBool True, drop 4 s)
          else if take 5 s = ''false'' then Some (PBool False, drop 5 s)
          else map_option (\<lambda>(i, r). (PInt i, r)) (scan_number s))"
| "parse_array 0 s = None"
| "parse_array (Suc n) s =
     (case scan_once n s of
        None \<Rightarrow> None
      | Some (v, r) \<Rightarrow>
          (case skip_ws r of
             [] \<Rightarrow> None
           | d # r' \<Rightarrow>
               if d = CHR '']'' then Some ([v], r')
               else if d = CHR '','' then
                 map_option (\<lambda>(vs, r''). (v # vs, r'')) (parse_array n (skip_ws r'))
               else None))"
| "parse_object 0 s = None"
| "parse_object (Suc n) s =
     (case s of
        [] \<Rightarrow> None
      | q # cs \<Rightarrow>
          if q \<noteq> CHR 0x22 then None
          else
            (case scanstring cs of
               None \<Rightarrow> None
             | Some (k, r) \<Rightarrow>
                 (case skip_ws r of
                    [] \<Rightarrow> None
                  | d # r1 \<Rightarrow>
                      if d \<noteq> CHR '':'' then None
                      else
                        (case scan_once n (skip_ws r1) of
                           None \<Rightarrow> None
                         | Some (v, r2) \<Rightarrow>
                             (case skip_ws r2 of
                                [] \<Rightarrow> None
                              | e # r3 \<Rightarrow>
                                  if e = CHR ''}'' then Some ([(k, v)], r3)
                                  else if e = CHR '','' then
                                    map_option (\<lambda>(kvs, r4). ((k, v) # kvs, r4))
                                      (parse_object n (skip_ws r3))
                                  else None)))))"

definition json_loads :: "string \<Rightarrow> py_value option" where
  "json_loads s =
     (case scan_once (Suc (length s)) (skip_ws s) of
        None \<Rightarrow> None
      | Some (v, r) \<Rightarrow> if skip_ws r = [] then Some v else None)"

subsection \<open>What follows a value in the output of \<open>json_dumps\<close>\<close>


section \<open>The persistent buffer (\<open>persistent_buffer.py\<close>)\<close>

text \<open>
  Time is a number of seconds on one clock: \<open>datetime.now()\<close> and SQLite's
  \<open>CURRENT_TIMESTAMP\<close> are both the argument \<open>now\<close> of an operation, \<open>timedelta(minutes=m)\<close>
  is \<open>60 * m\<close>, one day is 86400 and seven days are 604800. The textual form of the
  timestamps in the database file and the time zones of the two clocks (local time in
  Python, UTC in SQLite) are not modelled: the model is the process whose local time is
  UTC. Errors of the database engine itself (a locked or unwritable file) are not
  modelled either; an operation fails only where the model says so.
\<close>

datatype MessageStatus = PENDING | PROCESSING | COMPLETED | FAILED | EXPIRED



text \<open>
  The dataclass \<open>BufferedMessage\<close>. The fields that default to \<open>None\<close> are options;
  \<open>message_id\<close> is the field \<open>id\<close> and \<open>val\<close> the field \<open>value\<close>. The status is one of
  the five values of \<open>MessageStatus\<close>.
\<close>

record BufferedMessage =
  message_id :: "nat option"
  source :: "string option"
  destination :: "string option"
  topic_or_node :: "string option"
  val :: py_value
  data_type :: "string option"
  mapping_id :: "string option"
  status :: MessageStatus
  priority :: int
  retry_count :: int
  max_retries :: int
  created_at :: "int option"
  processed_at :: "int option"
  expire_at :: "int option"
  error_message :: "string option"
  metadata :: py_value

text \<open>A row of the table \<open>messages\<close>; the columns declared \<open>NOT NULL\<close> are not options.\<close>

record message_row =
  row_id :: nat
  row_source :: string
  row_destination :: string
  row_topic_or_node :: string
  row_value :: string
  row_data_type :: string
  row_mapping_id :: "string option"
  row_status :: MessageStatus
  row_priority :: int
  row_retry_count :: int
  row_max_retries :: int
  row_created_at :: int
  row_processed_at :: "int option"
  row_expire_at :: int
  row_error_message :: "string option"
  row_metadata :: "string option"

text \<open>A row of the table \<open>failed_messages\<close> (the dead-letter record).\<close>

record failed_row =
  fm_id :: nat
  fm_original_id :: nat
  fm_source :: string
  fm_destination :: string
  fm_topic_or_node :: string
  fm_value :: string
  fm_error_message :: "string option"
  fm_failed_at :: int
  fm_retry_count :: int
  fm_metadata :: "string option"

record runtime_stats =
  messages_added :: nat
  messages_processed :: nat
  messages_failed :: nat
  messages_expired :: nat

text \<open>
  The state of a \<open>PersistentBuffer\<close>: its configuration, the two tables in rowid order with
  the \<open>AUTOINCREMENT\<close> counters, and the dictionary \<open>self.stats\<close>. \<open>delete_limit\<close> says
  whether the SQLite library was built with \<open>SQLITE_ENABLE_UPDATE_DELETE_LIMIT\<close>; without
  it the statement \<open>DELETE ... LIMIT 100\<close> of the overflow policy is a syntax error, which
  \<open>_handle_buffer_overflow\<close> catches and logs.
\<close>

record PersistentBuffer =
  max_size :: int
  ttl_minutes :: int
  delete_limit :: bool
  messages :: "message_row list"
  messages_seq :: nat
  failed_messages :: "failed_row list"
  failed_messages_seq :: nat
  stats :: runtime_stats

definition init_buffer :: "int \<Rightarrow> int \<Rightarrow> bool \<Rightarrow> PersistentBuffer" where
  "init_buffer msize ttl dl =
     \<lparr>max_size = msize, ttl_minutes = ttl, delete_limit = dl, messages = [], messages_seq = 0,
      failed_messages = [], failed_messages_seq = 0,
      stats = \<lparr>messages_added = 0, messages_processed = 0, messages_failed = 0,
               messages_expired = 0\<rparr>\<rparr>"

definition in_flight :: "message_row \<Rightarrow> bool" where
  "in_flight r = (row_status r = PENDING \<or> row_status r = PROCESSING)"

definition get_pending_count :: "PersistentBuffer \<Rightarrow> int" where
  "get_pending_count self = int (length (filter in_flight (messages self)))"

text \<open>
  \<open>DELETE FROM messages WHERE c LIMIT n\<close> removes at most \<open>n\<close> rows that satisfy \<open>c\<close>. SQL
  leaves open which ones; the model removes the first \<open>n\<close> in rowid order.
\<close>

fun delete_where_limit :: "nat \<Rightarrow> ('a \<Rightarrow> bool) \<Rightarrow> 'a list \<Rightarrow> 'a list" where
  "delete_where_limit 0 c rows = rows"
| "delete_where_limit (Suc n) c [] = []"
| "delete_where_limit (Suc n) c (r # rows) =
     (if c r then delete_where_limit n c rows else r # delete_where_limit (Suc n) c rows)"

text \<open>
  \<open>_handle_buffer_overflow\<close>. \<open>oldest_completed\<close> is the subquery of its first
  \<open>DELETE\<close>; \<open>ORDER BY processed_at ASC\<close> puts \<open>NULL\<close> first, as the order on \<open>option\<close>
  does, and rows with equal keys are taken in rowid order. \<open>rowcount\<close> is the number of
  rows that statement deleted.
\<close>

definition oldest_completed :: "message_row list \<Rightarrow> message_row list" where
  "oldest_completed rows =
     take 100 (sort_key row_processed_at (filter (\<lambda>r. row_status r = COMPLETED) rows))"

definition handle_buffer_overflow :: "PersistentBuffer \<Rightarrow> int \<Rightarrow> PersistentBuffer" where
  "handle_buffer_overflow self now =
     (let ids = map row_id (oldest_completed (messages self));
          kept = filter (\<lambda>r. row_id r \<notin> set ids) (messages self);
          rowcount = length (messages self) - length kept
      in if rowcount < 50 \<and> delete_limit self then
           self\<lparr>messages := delete_where_limit 100 (\<lambda>r. row_expire_at r < now) kept\<rparr>
         else self\<lparr>messages := kept\<rparr>)"

text \<open>
  \<open>add_message\<close>: the size check, then the \<open>INSERT\<close> (\<open>insert_message\<close>, the block
  under \<open>with self._get_connection()\<close>). The \<open>INSERT\<close> raises \<open>IntegrityError\<close> when a
  \<open>NOT NULL\<close> column gets \<open>None\<close>; the handler then returns \<open>None\<close>, and what the overflow
  policy deleted stays deleted.
\<close>

definition insert_message ::
  "PersistentBuffer \<Rightarrow> int \<Rightarrow> BufferedMessage \<Rightarrow> nat option \<times> PersistentBuffer" where
  "insert_message self now message =
     (let created = (case created_at message of None \<Rightarrow> now | Some t \<Rightarrow> t);
          expire = (case expire_at message of
                      None \<Rightarrow> now + 60 * ttl_minutes self | Some t \<Rightarrow> t);
          value_json = (case val message of PStr s \<Rightarrow> s | v \<Rightarrow> json_dumps v);
          metadata_json = (if py_truthy (metadata message)
                           then Some (json_dumps (metadata message)) else None)
      in case (source message, destination message, topic_or_node message, data_type message) of
           (Some src, Some dst, Some ton, Some dt) \<Rightarrow>
             (Some (Suc (messages_seq self)),
              self\<lparr>messages := messages self @
                      [\<lparr>row_id = Suc (messages_seq self), row_source = src,
                        row_destination = dst, row_topic_or_node = ton,
                        row_value = value_json, row_data_type = dt,
                        row_mapping_id = mapping_id message, row_status = status message,
                        row_priority = priority message,
                        row_retry_count = retry_count message,
                        row_max_retries = max_retries message, row_created_at = created,
                        row_processed_at = None, row_expire_at = expire,
                        row_error_message = None, row_metadata = metadata_json\<rparr>],
                    messages_seq := Suc (messages_seq self),
                    stats := (stats self)\<lparr>messages_added :=
                                Suc (messages_added (stats self))\<rparr>\<rparr>)
         | _ \<Rightarrow> (None, self))"

definition add_message ::
  "PersistentBuffer \<Rightarrow> int \<Rightarrow> BufferedMessage \<Rightarrow> nat option \<times> PersistentBuffer" where
  "add_message self now message =
     insert_message
       (if get_pending_count self \<ge> max_size self then handle_buffer_overflow self now else self)
       now message"

text \<open>\<open>_row_to_message\<close>: an empty text is falsy, and a text that is not JSON is kept as it is.\<close>

definition row_to_message :: "message_row \<Rightarrow> BufferedMessage" where
  "row_to_message row =
     \<lparr>message_id = Some (row_id row),
      source = Some (row_source row),
      destination = Some (row_destination row),
      topic_or_node = Some (row_topic_or_node row),
      val = (if row_value row \<noteq> [] then
               (case json_loads (row_value row) of
                  Some v \<Rightarrow> v
                | None \<Rightarrow> PStr (row_value row))
             else PNone),
      data_type = Some (row_data_type row),
      mapping_id = row_mapping_id row,
      status = row_status row,
      priority = row_priority row,
      retry_count = row_retry_count row,
      max_retries = row_max_retries row,
      created_at = Some (row_created_at row),
      processed_at = row_processed_at row,
      expire_at = Some (row_expire_at row),
      error_message = row_error_message row,
      metadata = (case row_metadata row of
                    None \<Rightarrow> PNone
                  | Some m \<Rightarrow>
                      if m \<noteq> [] then (case json_loads m of Some v \<Rightarrow> v | None \<Rightarrow> PNone)
                      else PNone)\<rparr>"

text \<open>
  The \<open>WHERE\<close> clause of the two lease queries. \<open>if source:\<close> adds the condition on the
  source only for a non-empty string, and the same for the destination.
\<close>

definition route_filter :: "string option \<Rightarrow> string \<Rightarrow> bool" where
  "route_filter wanted actual = (case wanted of None \<Rightarrow> True | Some s \<Rightarrow> s = [] \<or> actual = s)"

definition leasable ::
  "int \<Rightarrow> string option \<Rightarrow> string option \<Rightarrow> message_row \<Rightarrow> bool" where
  "leasable now src dst r =
     (row_status r = PENDING \<and> row_expire_at r > now \<and> row_retry_count r < row_max_retries r
      \<and> route_filter src (row_source r) \<and> route_filter dst (row_destination r))"

text \<open>\<open>ORDER BY priority DESC, created_at ASC\<close>; rows with equal keys stay in rowid order.\<close>

definition lease_key :: "message_row \<Rightarrow> int \<times> int" where
  "lease_key r = (- row_priority r, row_created_at r)"

definition select_pending ::
  "PersistentBuffer \<Rightarrow> int \<Rightarrow> string option \<Rightarrow> string option \<Rightarrow> message_row list" where
  "select_pending self now src dst =
     sort_key lease_key (filter (leasable now src dst) (messages self))"

text \<open>SQLite reads a negative \<open>LIMIT\<close> as no limit.\<close>

definition sql_limit :: "int \<Rightarrow> 'a list \<Rightarrow> 'a list" where
  "sql_limit n rows = (if n < 0 then rows else take (nat n) rows)"

definition set_status :: "MessageStatus \<Rightarrow> nat list \<Rightarrow> message_row list \<Rightarrow> message_row list" where
  "set_status st ids rows = map (\<lambda>r. if row_id r \<in> set ids then r\<lparr>row_status := st\<rparr> else r) rows"

definition get_next_message ::
  "PersistentBuffer \<Rightarrow> int \<Rightarrow> string option \<Rightarrow> string option
    \<Rightarrow> BufferedMessage option \<times> PersistentBuffer" where
  "get_next_message self now src dst =
     (case select_pending self now src dst of
        [] \<Rightarrow> (None, self)
      | row # rest \<Rightarrow>
          (Some (row_to_message row),
           self\<lparr>messages := set_status PROCESSING [row_id row] (messages self)\<rparr>))"

definition get_pending_messages ::
  "PersistentBuffer \<Rightarrow> int \<Rightarrow> int \<Rightarrow> string option \<Rightarrow> string option
    \<Rightarrow> BufferedMessage list \<times> PersistentBuffer" where
  "get_pending_messages self now limit src dst =
     (let rows = sql_limit limit (select_pending self now src dst)
      in (map row_to_message rows,
          if rows \<noteq> [] then
            self\<lparr>messages := set_status PROCESSING (map row_id rows) (messages self)\<rparr>
          else self))"

definition mark_completed :: "PersistentBuffer \<Rightarrow> int \<Rightarrow> nat \<Rightarrow> bool \<times> PersistentBuffer" where
  "mark_completed self now mid =
     (let rowcount = length (filter (\<lambda>r. row_id r = mid) (messages self));
          self1 = self\<lparr>messages :=
                    map (\<lambda>r. if row_id r = mid
                              then r\<lparr>row_status := COMPLETED, row_processed_at := Some now\<rparr>
                              else r) (messages self)\<rparr>
      in if rowcount > 0 then
           (True, self1\<lparr>stats := (stats self1)\<lparr>messages_processed :=
                                     Suc (messages_processed (stats self1))\<rparr>\<rparr>)
         else (False, self1))"

definition mark_failed ::
  "PersistentBuffer \<Rightarrow> int \<Rightarrow> nat \<Rightarrow> string option \<Rightarrow> bool \<times> PersistentBuffer" where
  "mark_failed self now mid err =
     (case find (\<lambda>r. row_id r = mid) (messages self) of
        None \<Rightarrow> (False, self)
      | Some row \<Rightarrow>
          (let retries = row_retry_count row + 1;
               update = (\<lambda>st rows. map (\<lambda>r. if row_id r = mid
                             then r\<lparr>row_status := st, row_retry_count := retries,
                                    row_error_message := err\<rparr>
                             else r) rows)
           in if retries \<ge> row_max_retries row then
                (True,
                 self\<lparr>failed_messages := failed_messages self @
                         [\<lparr>fm_id = Suc (failed_messages_seq self), fm_original_id = mid,
                           fm_source = row_source row, fm_destination = row_destination row,
                           fm_topic_or_node = row_topic_or_node row, fm_value = row_value row,
                           fm_error_message = err, fm_failed_at = now,
                           fm_retry_count = retries, fm_metadata = row_metadata row\<rparr>],
                      failed_messages_seq := Suc (failed_messages_seq self),
                      messages := update FAILED (messages self),
                      stats := (stats self)\<lparr>messages_failed :=
                                  Suc (messages_failed (stats self))\<rparr>\<rparr>)
              else (True, self\<lparr>messages := update PENDING (messages self)\<rparr>)))"

text \<open>
  \<open>_cleanup\<close>, the periodic sweep: one \<open>UPDATE\<close> and two \<open>DELETE\<close>s on \<open>messages\<close>, in
  this order. A comparison with a \<open>NULL\<close> \<open>processed_at\<close> is not true. The table
  \<open>statistics\<close>, which the sweep also trims, is not modelled.
\<close>

definition expirable :: "int \<Rightarrow> message_row \<Rightarrow> bool" where
  "expirable now r = (row_expire_at r < now \<and> in_flight r)"

definition old_completed :: "int \<Rightarrow> message_row \<Rightarrow> bool" where
  "old_completed now r =
     (row_status r = COMPLETED \<and>
      (case row_processed_at r of None \<Rightarrow> False | Some t \<Rightarrow> t < now - 86400))"

definition old_expired :: "int \<Rightarrow> message_row \<Rightarrow> bool" where
  "old_expired now r = (row_status r = EXPIRED \<and> row_expire_at r < now - 604800)"

definition cleanup :: "PersistentBuffer \<Rightarrow> int \<Rightarrow> PersistentBuffer" where
  "cleanup self now =
     (let expired_count = length (filter (expirable now) (messages self));
          rows1 = map (\<lambda>r. if expirable now r then r\<lparr>row_status := EXPIRED\<rparr> else r)
                    (messages self);
          rows2 = filter (\<lambda>r. \<not> old_completed now r) rows1;
          rows3 = filter (\<lambda>r. \<not> old_expired now r) rows2
      in self\<lparr>messages := rows3,
              stats := (stats self)\<lparr>messages_expired :=
                          messages_expired (stats self) + expired_count\<rparr>\<rparr>)"

definition reset_processing_messages :: "PersistentBuffer \<Rightarrow> PersistentBuffer" where
  "reset_processing_messages self =
     self\<lparr>messages := map (\<lambda>r. if row_status r = PROCESSING
                                then r\<lparr>row_status := PENDING\<rparr> else r) (messages self)\<rparr>"

text \<open>
  \<open>get_statistics\<close>. \<open>GROUP BY\<close> gives one count for each key that occurs. The division
  by \<open>max_size\<close> raises \<open>ZeroDivisionError\<close> when it is 0 and the handler returns the empty
  dictionary, here \<open>None\<close>. The quotient is a real number; its rounding to a Python
  \<open>float\<close> is not modelled.
\<close>

definition group_count :: "('a \<Rightarrow> 'k) \<Rightarrow> 'a list \<Rightarrow> ('k \<times> nat) list" where
  "group_count key rows =
     map (\<lambda>k. (k, length (filter (\<lambda>r. key r = k) rows))) (remdups (map key rows))"

record statistics =
  buffer_size :: int
  stat_max_size :: int
  status_counts :: "(MessageStatus \<times> nat) list"
  route_counts :: "((string \<times> string) \<times> nat) list"
  oldest_pending :: "int option"
  stat_runtime_stats :: runtime_stats
  utilization_percent :: real

definition get_statistics :: "PersistentBuffer \<Rightarrow> statistics option" where
  "get_statistics self =
     (if max_size self = 0 then None
      else Some
        \<lparr>buffer_size = get_pending_count self,
         stat_max_size = max_size self,
         status_counts = group_count row_status (messages self),
         route_counts = group_count (\<lambda>r. (row_source r, row_destination r))
                          (filter in_flight (messages self)),
         oldest_pending =
           (case filter (\<lambda>r. row_status r = PENDING) (messages self) of
              [] \<Rightarrow> None
            | r # rs \<Rightarrow> Some (Min (set (map row_created_at (r # rs))))),
         stat_runtime_stats = stats self,
         utilization_percent =
           real_of_int (get_pending_count self) / real_of_int (max_size self) * 100\<rparr>)"

section \<open>Reading the tables\<close>

text \<open>The row of a message id, the dead-letter rows of a message id, and a run of \<open>fail\<close> calls.\<close>

definition get_row :: "PersistentBuffer \<Rightarrow> nat \<Rightarrow> message_row option" where
  "get_row self mid = find (\<lambda>r. row_id r = mid) (messages self)"

definition dead_letters :: "PersistentBuffer \<Rightarrow> nat \<Rightarrow> failed_row list" where
  "dead_letters self mid = filter (\<lambda>f. fm_original_id f = mid) (failed_messages self)"

fun fail_calls :: "PersistentBuffer \<Rightarrow> nat \<Rightarrow> (int \<times> string option) list \<Rightarrow> PersistentBuffer" where
  "fail_calls self mid [] = self"
| "fail_calls self mid (c # cs) = fail_calls (snd (mark_failed self (fst c) mid (snd c))) mid cs"

definition terminal :: "message_row \<Rightarrow> bool" where
  "terminal r = (row_status r = COMPLETED \<or> row_status r = FAILED \<or> row_status r = EXPIRED)"

text \<open>
  The primary key: ids are distinct and none is above the \<open>AUTOINCREMENT\<close> counter. Every
  operation keeps this, starting from the empty database.
\<close>

definition wf_buffer :: "PersistentBuffer \<Rightarrow> bool" where
  "wf_buffer self =
     (distinct (map row_id (messages self)) \<and>
      list_all (\<lambda>i. i \<le> messages_seq self) (map row_id (messages self)))"

text \<open>The message used in the examples, and the buffer that holds it alone.\<close>

definition example_message :: BufferedMessage where
  "example_message =
     \<lparr>message_id = None, source = Some ''mqtt'', destination = Some ''opcua'',
      topic_or_node = Some ''ns=2;i=7'', val = PInt 5, data_type = Some ''Int32'',
      mapping_id = None, status = PENDING, priority = 1, retry_count = 0, max_retries = 3,
      created_at = None, processed_at = None, expire_at = None, error_message = None,
      metadata = PNone\<rparr>"

definition example_row :: message_row where
  "example_row =
     \<lparr>row_id = 1, row_source = ''mqtt'', row_destination = ''opcua'',
      row_topic_or_node = ''ns=2;i=7'', row_value = ''5'', row_data_type = ''Int32'',
      row_mapping_id = None, row_status = PENDING, row_priority = 1, row_retry_count = 0,
      row_max_retries = 3, row_created_at = 1000, row_processed_at = None,
      row_expire_at = 4600, row_error_message = None, row_metadata = None\<rparr>"

definition example_buffer :: PersistentBuffer where
  "example_buffer =
     \<lparr>max_size = 1, ttl_minutes = 60, delete_limit = True, messages = [example_row],
      messages_seq = 1, failed_messages = [], failed_messages_seq = 0,
      stats = \<lparr>messages_added = 1, messages_processed = 0, messages_failed = 0,
               messages_expired = 0\<rparr>\<rparr>"

text \<open>
  \<open>keeps_terminal self self'\<close>: whatever row \<open>self'\<close> holds under the id of a completed,
  failed or expired row of \<open>self\<close> is that row, unchanged.
\<close>

definition keeps_terminal :: "PersistentBuffer \<Rightarrow> PersistentBuffer \<Rightarrow> bool" where
  "keeps_terminal self self' =
     (\<forall>r \<in> set (messages self). terminal r \<longrightarrow>
        (\<forall>r' \<in> set (messages self'). row_id r' = row_id r \<longrightarrow> r' = r))"

definition completed_buffer :: PersistentBuffer where
  "completed_buffer = snd (mark_completed example_buffer 1001 1)"

text \<open>
  A buffer of size 1 that is full: the completed message of \<open>completed_buffer\<close> and a
  second, pending message.
\<close>

definition full_buffer :: PersistentBuffer where
  "full_buffer = snd (add_message completed_buffer 1002 example_message)"

text \<open>The example buffer after its message was leased.\<close>

definition leased_buffer :: PersistentBuffer where
  "leased_buffer = snd (get_pending_messages example_buffer 1001 10 None None)"






section \<open>The operator surface (\<open>buffer_analytics.py\<close>)\<close>

text \<open>
  \<open>BufferAnalytics\<close> reads the table \<open>messages\<close> directly; its functions take the rows
  and the current time. SQLite's \<open>AVG\<close> and Python's \<open>float\<close> arithmetic are modelled by
  real numbers. The \<open>message\<close> text of an anomaly is left out.
\<close>

subsection \<open>\<open>detect_anomalies\<close>\<close>

text \<open>
  One constructor for each \<open>type\<close> of anomaly, with the entries of its dictionary:
  the \<open>severity\<close> first (\<open>'high'\<close> or \<open>'medium'\<close>), then \<open>count\<close>, \<open>oldest\<close>, \<open>rate\<close>, \<open>route\<close>,
  \<open>avg_time\<close> and \<open>max_time\<close> as the type has them.
\<close>

datatype anomaly =
    stuck_messages string nat "int option"
  | high_failure_rate string real
  | queue_buildup string nat "int option"
  | high_retry_messages string nat
  | route_congestion string string nat
  | slow_processing string real real

fun severity :: "anomaly \<Rightarrow> string" where
  "severity (stuck_messages s c t) = s"
| "severity (high_failure_rate s x) = s"
| "severity (queue_buildup s c t) = s"
| "severity (high_retry_messages s c) = s"
| "severity (route_congestion s r c) = s"
| "severity (slow_processing s x y) = s"

fun is_route_congestion :: "anomaly \<Rightarrow> bool" where
  "is_route_congestion (route_congestion s r c) = True"
| "is_route_congestion a = False"

text \<open>\<open>MIN(created_at)\<close> over the selected rows, \<open>NULL\<close> when there is none.\<close>

definition min_created_at :: "message_row list \<Rightarrow> int option" where
  "min_created_at rows =
     (case rows of [] \<Rightarrow> None | r # rs \<Rightarrow> Some (Min (set (map row_created_at (r # rs)))))"

text \<open>1. Messages stuck in processing for more than five minutes.\<close>

definition stuck_check :: "message_row list \<Rightarrow> int \<Rightarrow> anomaly list" where
  "stuck_check rows now =
     (let stuck = filter (\<lambda>r. row_status r = PROCESSING \<and> row_created_at r + 300 < now) rows
      in if length stuck > 0 then [stuck_messages ''high'' (length stuck) (min_created_at stuck)]
         else [])"

text \<open>2. The failure rate among the messages of the last hour.\<close>

definition failure_rate_check :: "message_row list \<Rightarrow> int \<Rightarrow> anomaly list" where
  "failure_rate_check rows now =
     (let recent = filter (\<lambda>r. row_created_at r > now - 3600) rows;
          total = length recent;
          failed = length (filter (\<lambda>r. row_status r = FAILED) recent);
          failure_rate = real failed / real total * 100
      in if total > 0 \<and> failure_rate > 10 then
           [high_failure_rate (if failure_rate > 25 then ''high'' else ''medium'') failure_rate]
         else [])"

text \<open>3. The number of pending messages.\<close>

definition queue_buildup_check :: "message_row list \<Rightarrow> anomaly list" where
  "queue_buildup_check rows =
     (let pending = filter (\<lambda>r. row_status r = PENDING) rows
      in if length pending > 1000 then
           [queue_buildup (if length pending > 5000 then ''high'' else ''medium'')
              (length pending) (min_created_at pending)]
         else [])"

text \<open>4. Messages one failure away from the retry limit.\<close>

definition high_retry_check :: "message_row list \<Rightarrow> anomaly list" where
  "high_retry_check rows =
     (let n = length (filter (\<lambda>r. row_retry_count r \<ge> row_max_retries r - 1 \<and>
                                    row_status r \<noteq> COMPLETED \<and> row_status r \<noteq> FAILED) rows)
      in if n > 0 then [high_retry_messages ''medium'' n] else [])"

text \<open>
  5. Routes. The query groups the pending and processing rows by source and destination,
  keeps the groups \<open>HAVING count > 100\<close> and orders them by count, largest first; the loop
  over its result appends an anomaly only \<open>if route['count'] > 500\<close>, always with the
  severity \<open>'medium'\<close>. The \<open>route\<close> entry is \<open>source->destination\<close>.
\<close>

definition congested_routes :: "message_row list \<Rightarrow> ((string \<times> string) \<times> nat) list" where
  "congested_routes rows =
     sort_key (\<lambda>g. - int (snd g))
       (filter (\<lambda>g. snd g > 100)
          (group_count (\<lambda>r. (row_source r, row_destination r)) (filter in_flight rows)))"

definition route_congestion_check :: "message_row list \<Rightarrow> anomaly list" where
  "route_congestion_check rows =
     concat (map (\<lambda>route.
                    if snd route > 500 then
                      [route_congestion ''medium''
                         (fst (fst route) @ ''->'' @ snd (fst route)) (snd route)]
                    else [])
               (congested_routes rows))"

text \<open>
  6. The processing time of the messages completed in the last hour, in seconds. \<open>AVG\<close>
  is \<open>NULL\<close> without rows, and \<open>row['avg_time'] and ...\<close> also skips an average of 0.
\<close>

definition slow_processing_check :: "message_row list \<Rightarrow> int \<Rightarrow> anomaly list" where
  "slow_processing_check rows now =
     (let times = concat (map (\<lambda>r. case row_processed_at r of
                                      None \<Rightarrow> []
                                    | Some t \<Rightarrow>
                                        if row_status r = COMPLETED \<and> t > now - 3600
                                        then [t - row_created_at r] else []) rows);
          avg_time = real_of_int (sum_list times) / real (length times)
      in if times \<noteq> [] \<and> avg_time \<noteq> 0 \<and> avg_time > 10 then
           [slow_processing ''medium'' avg_time (real_of_int (Max (set times)))]
         else [])"

definition detect_anomalies :: "message_row list \<Rightarrow> int \<Rightarrow> anomaly list" where
  "detect_anomalies rows now =
     stuck_check rows now @ failure_rate_check rows now @ queue_buildup_check rows @
     high_retry_check rows @ route_congestion_check rows @ slow_processing_check rows now"

subsection \<open>\<open>predict_load\<close>\<close>

text \<open>
  Time 0 is a Thursday. SQLite's \<open>strftime('%w', t)\<close> numbers the days of the week from
  Sunday = 0; Python's \<open>datetime.weekday()\<close> numbers them from Monday = 0. Time zones are
  not modelled.
\<close>

definition sqlite_weekday :: "int \<Rightarrow> int" where
  "sqlite_weekday t = (t div 86400 + 4) mod 7"

definition py_weekday :: "int \<Rightarrow> int" where
  "py_weekday t = (t div 86400 + 3) mod 7"

definition hour_of_day :: "int \<Rightarrow> int" where
  "hour_of_day t = (t div 3600) mod 24"

text \<open>
  The first query: the messages of the last 30 days, counted for each
  \<open>(day_of_week, hour_of_day)\<close> that occurs.
\<close>

definition history_rows :: "message_row list \<Rightarrow> int \<Rightarrow> ((int \<times> int) \<times> nat) list" where
  "history_rows rows now =
     group_count (\<lambda>r. (sqlite_weekday (row_created_at r), hour_of_day (row_created_at r)))
       (filter (\<lambda>r. row_created_at r > now - 30 * 86400) rows)"

text \<open>
  \<open>patterns[key]\<close>, the counts appended under a key, and the entry of \<open>pattern_stats\<close>
  made from them: \<open>statistics.mean\<close>, \<open>statistics.stdev\<close> (0 for a single value) and the
  number of values.
\<close>

definition patterns :: "((int \<times> int) \<times> nat) list \<Rightarrow> int \<times> int \<Rightarrow> nat list" where
  "patterns sql_rows key = map snd (filter (\<lambda>row. fst row = key) sql_rows)"

definition py_mean :: "nat list \<Rightarrow> real" where
  "py_mean values = real (sum_list values) / real (length values)"

definition py_stdev :: "nat list \<Rightarrow> real" where
  "py_stdev values =
     sqrt (sum_list (map (\<lambda>x. (real x - py_mean values)\<^sup>2) values) / real (length values - 1))"

record pattern_stat =
  mean :: real
  stdev :: real
  samples :: nat

definition pattern_stats ::
  "((int \<times> int) \<times> nat) list \<Rightarrow> int \<times> int \<Rightarrow> pattern_stat option" where
  "pattern_stats sql_rows key =
     (let values = patterns sql_rows key
      in if values \<noteq> [] then
           Some \<lparr>mean = py_mean values,
                 stdev = (if length values > 1 then py_stdev values else 0),
                 samples = length values\<rparr>
         else None)"

text \<open>
  The fallback query: the average number of messages in an hour, over the hours of the
  last 7 days that have a message; \<open>or 50\<close> without one.
\<close>

definition avg_load :: "message_row list \<Rightarrow> int \<Rightarrow> real" where
  "avg_load rows now =
     (let hours = group_count (\<lambda>r. row_created_at r div 3600)
                    (filter (\<lambda>r. row_created_at r > now - 7 * 86400) rows)
      in if hours = [] then 50
         else real (sum_list (map snd hours)) / real (length hours))"

text \<open>Python's \<open>int(x)\<close> on a float cuts off the fraction.\<close>

definition py_int :: "real \<Rightarrow> int" where
  "py_int x = (if x \<ge> 0 then \<lfloor>x\<rfloor> else \<lceil>x\<rceil>)"

text \<open>
  One entry of \<open>predictions\<close>; \<open>time\<close> is the hour the prediction is for, cut to the full
  hour as \<open>strftime('%Y-%m-%d %H:00')\<close> prints it.
\<close>

record prediction =
  time :: int
  predicted_messages :: int
  confidence :: int
  range_min :: int
  range_max :: int

definition predict_hour :: "message_row list \<Rightarrow> int \<Rightarrow> int \<Rightarrow> prediction" where
  "predict_hour rows now future_time =
     (let dow = py_weekday future_time;
          hod = hour_of_day future_time
      in case pattern_stats (history_rows rows now) (dow, hod) of
           Some st \<Rightarrow>
             \<lparr>time = future_time div 3600 * 3600,
              predicted_messages = py_int (mean st),
              confidence = min 90 (50 + int (samples st) * 2),
              range_min = max 0 (py_int (mean st - stdev st)),
              range_max = py_int (mean st + stdev st)\<rparr>
         | None \<Rightarrow>
             \<lparr>time = future_time div 3600 * 3600,
              predicted_messages = py_int (avg_load rows now),
              confidence = 30,
              range_min = py_int (avg_load rows now * 0.5),
              range_max = py_int (avg_load rows now * 1.5)\<rparr>)"

datatype recommendation = Normal_load | Moderate_load | High_load | Critical_load

definition get_load_recommendation :: "int \<Rightarrow> recommendation" where
  "get_load_recommendation estimated_load =
     (if estimated_load < 1000 then Normal_load
      else if estimated_load < 5000 then Moderate_load
      else if estimated_load < 10000 then High_load
      else Critical_load)"

record load_prediction =
  next_hours :: int
  predictions :: "prediction list"
  total_predicted_messages :: int
  current_pending :: int
  estimated_total_load :: int
  recommendation :: recommendation

definition predict_load :: "message_row list \<Rightarrow> int \<Rightarrow> int \<Rightarrow> load_prediction" where
  "predict_load rows now hours =
     (let preds = map (\<lambda>hour_offset. predict_hour rows now (now + 3600 * int hour_offset))
                    [0 ..< nat hours];
          total_predicted = sum_list (map predicted_messages preds);
          pending = int (length (filter (\<lambda>r. row_status r = PENDING) rows))
      in \<lparr>next_hours = hours, predictions = preds,
          total_predicted_messages = total_predicted,
          current_pending = pending,
          estimated_total_load = pending + total_predicted,
          recommendation = get_load_recommendation (pending + total_predicted)\<rparr>)"

text \<open>
  The inputs of the analytics examples: \<open>route_rows n\<close> are \<open>n\<close> pending messages of the
  route \<open>mqtt -> opcua\<close>; \<open>monday_history\<close> is one message created on a Monday at 10:30
  (day 4 of the epoch); \<open>monday_1015\<close> and \<open>tuesday_1015\<close> are 10:15 on the Monday and the
  Tuesday of the week after.
\<close>

definition route_rows :: "nat \<Rightarrow> message_row list" where
  "route_rows n = map (\<lambda>i. example_row\<lparr>row_id := Suc i\<rparr>) [0 ..< n]"

definition monday_history :: "message_row list" where
  "monday_history = [example_row\<lparr>row_created_at := 4 * 86400 + 10 * 3600 + 1800,
                                 row_expire_at := 4 * 86400 + 11 * 3600 + 1800\<rparr>]"

definition monday_1015 :: int where
  "monday_1015 = 11 * 86400 + 10 * 3600 + 900"

definition tuesday_1015 :: int where
  "tuesday_1015 = 12 * 86400 + 10 * 3600 + 900"

section \<open>Lemmas about the operations\<close>

subsection \<open>The example buffer is what one enqueue builds\<close>

lemma example_buffer_built:
  "add_message (init_buffer 1 60 True) 1000 example_message = (Some 1, example_buffer)"
  by code_simp

subsection \<open>\<open>mark_failed\<close> on the row of a message\<close>

lemma find_map_update:
  "find (\<lambda>r. row_id r = mid) rows = Some r \<Longrightarrow> (\<And>x. row_id (f x) = row_id x) \<Longrightarrow>
   find (\<lambda>r. row_id r = mid) (map (\<lambda>x. if row_id x = mid then f x else x) rows) = Some (f r)"
  by (induction rows) (auto split: if_splits)

lemma find_map_other:
  "mid' \<noteq> mid \<Longrightarrow> (\<And>x. row_id (f x) = row_id x) \<Longrightarrow>
   find (\<lambda>r. row_id r = mid') (map (\<lambda>x. if row_id x = mid then f x else x) rows)
     = find (\<lambda>r. row_id r = mid') rows"
  by (induction rows) (auto split: if_splits)

lemma mark_failed_row:
  assumes "get_row self mid = Some r"
  shows "get_row (snd (mark_failed self now mid err)) mid =
           Some (r\<lparr>row_status := (if row_max_retries r \<le> row_retry_count r + 1 then FAILED else PENDING),
                   row_retry_count := row_retry_count r + 1, row_error_message := err\<rparr>)"
  using assms
  by (simp add: get_row_def mark_failed_def Let_def find_map_update)

lemma mark_failed_dead_letters:
  assumes "get_row self mid = Some r"
  shows "dead_letters (snd (mark_failed self now mid err)) mid =
           dead_letters self mid @
           (if row_max_retries r \<le> row_retry_count r + 1 then
              [\<lparr>fm_id = Suc (failed_messages_seq self), fm_original_id = mid,
                fm_source = row_source r, fm_destination = row_destination r,
                fm_topic_or_node = row_topic_or_node r, fm_value = row_value r,
                fm_error_message = err, fm_failed_at = now,
                fm_retry_count = row_retry_count r + 1, fm_metadata = row_metadata r\<rparr>]
            else [])"
  using assms
  by (simp add: get_row_def dead_letters_def mark_failed_def Let_def)

lemma fail_calls_row:
  "get_row self mid = Some r \<Longrightarrow>
   get_row (fail_calls self mid cs) mid =
     Some (if cs = [] then r
           else r\<lparr>row_status :=
                     (if row_max_retries r \<le> row_retry_count r + int (length cs)
                      then FAILED else PENDING),
                   row_retry_count := row_retry_count r + int (length cs),
                   row_error_message := snd (last cs)\<rparr>)"
proof (induction cs arbitrary: self r)
  case Nil
  then show ?case by simp
next
  case (Cons c cs)
  let ?r1 = "r\<lparr>row_status := (if row_max_retries r \<le> row_retry_count r + 1 then FAILED else PENDING),
                 row_retry_count := row_retry_count r + 1, row_error_message := snd c\<rparr>"
  have step: "get_row (snd (mark_failed self (fst c) mid (snd c))) mid = Some ?r1"
    using Cons.prems by (rule mark_failed_row)
  show ?case
    using Cons.IH [OF step] by (simp add: add.assoc add.commute)
qed

lemma fail_calls_dead_letters:
  "get_row self mid = Some r \<Longrightarrow>
   length (dead_letters (fail_calls self mid cs) mid) =
     length (dead_letters self mid) +
     (length cs - nat (row_max_retries r - row_retry_count r - 1))"
proof (induction cs arbitrary: self r)
  case Nil
  then show ?case by simp
next
  case (Cons c cs)
  let ?r1 = "r\<lparr>row_status := (if row_max_retries r \<le> row_retry_count r + 1 then FAILED else PENDING),
                 row_retry_count := row_retry_count r + 1, row_error_message := snd c\<rparr>"
  have step: "get_row (snd (mark_failed self (fst c) mid (snd c))) mid = Some ?r1"
    using Cons.prems by (rule mark_failed_row)
  have dl: "length (dead_letters (snd (mark_failed self (fst c) mid (snd c))) mid) =
              length (dead_letters self mid) +
              (if row_max_retries r \<le> row_retry_count r + 1 then 1 else 0)"
    using mark_failed_dead_letters [OF Cons.prems, of "fst c" "snd c"] by simp
  show ?case
    using Cons.IH [OF step] dl by (auto simp: nat_diff_distrib')
qed

subsection \<open>The primary key is kept by every operation\<close>

lemma delete_where_limit_subset: "set (delete_where_limit n c rows) \<subseteq> set rows"
  by (induction n c rows rule: delete_where_limit.induct) auto

lemma delete_where_limit_distinct:
  "distinct (map f rows) \<Longrightarrow> distinct (map f (delete_where_limit n c rows))"
proof (induction n c rows rule: delete_where_limit.induct)
  case (3 n c r rows)
  then show ?case
    using delete_where_limit_subset [of "Suc n" c rows] by auto
qed simp_all

lemma overflow_subset:
  "set (messages (handle_buffer_overflow self now)) \<subseteq> set (messages self)"
  by (auto simp: handle_buffer_overflow_def Let_def
      dest: subsetD [OF delete_where_limit_subset])

lemma overflow_seq [simp]:
  "messages_seq (handle_buffer_overflow self now) = messages_seq self"
  by (simp add: handle_buffer_overflow_def Let_def)

lemma overflow_distinct:
  "distinct (map row_id (messages self)) \<Longrightarrow>
   distinct (map row_id (messages (handle_buffer_overflow self now)))"
  by (simp add: handle_buffer_overflow_def Let_def distinct_map_filter delete_where_limit_distinct)

lemma row_id_comp_update [simp]:
  "(\<And>x. row_id (f x) = row_id x) \<Longrightarrow> row_id \<circ> (\<lambda>r. if c r then f r else r) = row_id"
  by (auto simp: fun_eq_iff)

lemma map_row_id_set_status [simp]: "map row_id (set_status st ids rows) = map row_id rows"
  by (simp add: set_status_def)

lemma wf_overflow: "wf_buffer self \<Longrightarrow> wf_buffer (handle_buffer_overflow self now)"
  using overflow_subset [of self now]
  by (auto simp: wf_buffer_def overflow_distinct list_all_iff)


lemma overflow_ttl [simp]:
  "ttl_minutes (handle_buffer_overflow self now) = ttl_minutes self"
  by (simp add: handle_buffer_overflow_def Let_def)

lemma insert_message_messages:
  "messages (snd (insert_message self now m)) = messages self \<or>
   (\<exists>row. messages (snd (insert_message self now m)) = messages self @ [row] \<and>
          row_id row = Suc (messages_seq self) \<and>
          messages_seq (snd (insert_message self now m)) = Suc (messages_seq self))"
  by (auto simp: insert_message_def Let_def split: option.splits)

lemma insert_message_seq:
  "messages_seq self \<le> messages_seq (snd (insert_message self now m))"
  by (auto simp: insert_message_def Let_def split: option.splits)

lemma wf_insert_message: "wf_buffer self \<Longrightarrow> wf_buffer (snd (insert_message self now m))"
proof -
  assume wf: "wf_buffer self"
  then have fresh: "Suc (messages_seq self) \<notin> row_id ` set (messages self)"
    by (auto simp: wf_buffer_def list_all_iff)
  show ?thesis
    using wf fresh
    by (auto simp: insert_message_def Let_def wf_buffer_def list_all_iff split: option.splits)
qed

lemma wf_add_message: "wf_buffer self \<Longrightarrow> wf_buffer (snd (add_message self now m))"
  by (simp add: add_message_def wf_insert_message wf_overflow)

lemma wf_lease:
  "wf_buffer self \<Longrightarrow> wf_buffer (snd (get_pending_messages self now n src dst))"
  by (simp add: wf_buffer_def get_pending_messages_def Let_def)

lemma wf_next:
  "wf_buffer self \<Longrightarrow> wf_buffer (snd (get_next_message self now src dst))"
  by (simp add: wf_buffer_def get_next_message_def split: list.splits)

lemma wf_mark_completed:
  "wf_buffer self \<Longrightarrow> wf_buffer (snd (mark_completed self now mid))"
  by (simp add: wf_buffer_def mark_completed_def Let_def)

lemma wf_mark_failed:
  "wf_buffer self \<Longrightarrow> wf_buffer (snd (mark_failed self now mid err))"
  by (simp add: wf_buffer_def mark_failed_def Let_def split: option.splits)

lemma wf_reset: "wf_buffer self \<Longrightarrow> wf_buffer (reset_processing_messages self)"
  by (simp add: wf_buffer_def reset_processing_messages_def)

lemma wf_cleanup: "wf_buffer self \<Longrightarrow> wf_buffer (cleanup self now)"
proof -
  assume wf: "wf_buffer self"
  let ?rows1 = "map (\<lambda>r. if expirable now r then r\<lparr>row_status := EXPIRED\<rparr> else r) (messages self)"
  have ids: "map row_id ?rows1 = map row_id (messages self)"
    by simp
  have d: "distinct (map row_id ?rows1)" "list_all (\<lambda>i. i \<le> messages_seq self) (map row_id ?rows1)"
    using wf unfolding ids by (simp_all add: wf_buffer_def)
  show ?thesis
    using d
    by (auto simp: wf_buffer_def cleanup_def Let_def list_all_iff distinct_map_filter
        simp del: map_map)
qed

subsection \<open>Operations that leave completed, failed and expired rows alone\<close>

lemma distinct_row_id_eq:
  "distinct (map row_id rows) \<Longrightarrow> r \<in> set rows \<Longrightarrow> r0 \<in> set rows \<Longrightarrow>
   row_id r0 = row_id r \<Longrightarrow> r0 = r"
  by (meson distinct_map inj_on_def)

lemma keeps_terminalI:
  assumes "distinct (map row_id (messages self))"
    and "\<And>r'. r' \<in> set (messages self') \<Longrightarrow>
           (\<exists>r0 \<in> set (messages self). row_id r0 = row_id r' \<and> (terminal r0 \<longrightarrow> r' = r0)) \<or>
           (\<forall>r0 \<in> set (messages self). row_id r0 \<noteq> row_id r')"
  shows "keeps_terminal self self'"
  unfolding keeps_terminal_def
proof (intro ballI impI)
  fix r r'
  assume r: "r \<in> set (messages self)" and t: "terminal r"
    and r': "r' \<in> set (messages self')" and eq: "row_id r' = row_id r"
  from assms(2) [OF r'] r eq obtain r0 where
    r0: "r0 \<in> set (messages self)" "row_id r0 = row_id r'" "terminal r0 \<longrightarrow> r' = r0"
    by metis
  have "r0 = r" using distinct_row_id_eq [OF assms(1) r r0(1)] r0(2) eq by simp
  then show "r' = r" using r0(3) t by simp
qed

lemma set_sql_limit: "set (sql_limit n rows) \<subseteq> set rows"
  by (auto simp: sql_limit_def dest: in_set_takeD)

lemma select_pending_set:
  "set (select_pending self now src dst) = {r \<in> set (messages self). leasable now src dst r}"
  by (auto simp: select_pending_def)

lemma set_status_keeps:
  assumes d: "distinct (map row_id rows)"
    and sel: "set sel \<subseteq> set rows" "\<And>r. r \<in> set sel \<Longrightarrow> \<not> terminal r"
    and r': "r' \<in> set (set_status st (map row_id sel) rows)"
  shows "\<exists>r0 \<in> set rows. row_id r0 = row_id r' \<and> (terminal r0 \<longrightarrow> r' = r0)"
proof -
  from r' obtain r0 where r0: "r0 \<in> set rows"
    and eq: "r' = (if row_id r0 \<in> set (map row_id sel) then r0\<lparr>row_status := st\<rparr> else r0)"
    by (auto simp: set_status_def)
  have "r' = r0" if t: "terminal r0"
  proof -
    have "row_id r0 \<notin> set (map row_id sel)"
    proof
      assume "row_id r0 \<in> set (map row_id sel)"
      then obtain r1 where r1: "r1 \<in> set sel" "row_id r1 = row_id r0" by auto
      then have "r1 = r0" using distinct_row_id_eq [OF d r0, of r1] sel(1) by auto
      then show False using sel(2) [OF r1(1)] t by simp
    qed
    then show ?thesis using eq by simp
  qed
  moreover have "row_id r0 = row_id r'" using eq by simp
  ultimately show ?thesis using r0 by auto
qed

lemma leasable_not_terminal: "leasable now src dst r \<Longrightarrow> \<not> terminal r"
  by (simp add: leasable_def terminal_def)

lemma keeps_terminal_lease:
  assumes "wf_buffer self"
  shows "keeps_terminal self (snd (get_pending_messages self now n src dst))"
proof (rule keeps_terminalI)
  show d: "distinct (map row_id (messages self))" using assms by (simp add: wf_buffer_def)
  fix r' assume r': "r' \<in> set (messages (snd (get_pending_messages self now n src dst)))"
  let ?sel = "sql_limit n (select_pending self now src dst)"
  have sub: "set ?sel \<subseteq> set (messages self)"
    using set_sql_limit [of n "select_pending self now src dst"] select_pending_set by auto
  have nt: "\<And>r. r \<in> set ?sel \<Longrightarrow> \<not> terminal r"
    using set_sql_limit [of n "select_pending self now src dst"] select_pending_set
      leasable_not_terminal by blast
  show "(\<exists>r0 \<in> set (messages self). row_id r0 = row_id r' \<and> (terminal r0 \<longrightarrow> r' = r0)) \<or>
           (\<forall>r0 \<in> set (messages self). row_id r0 \<noteq> row_id r')"
  proof (cases "?sel = []")
    case True
    then show ?thesis using r' by (auto simp: get_pending_messages_def)
  next
    case False
    then have "r' \<in> set (set_status PROCESSING (map row_id ?sel) (messages self))"
      using r' by (simp add: get_pending_messages_def Let_def)
    from set_status_keeps [OF d sub nt this] show ?thesis by blast
  qed
qed

lemma keeps_terminal_next:
  assumes "wf_buffer self"
  shows "keeps_terminal self (snd (get_next_message self now src dst))"
proof (rule keeps_terminalI)
  show d: "distinct (map row_id (messages self))" using assms by (simp add: wf_buffer_def)
  fix r' assume r': "r' \<in> set (messages (snd (get_next_message self now src dst)))"
  show "(\<exists>r0 \<in> set (messages self). row_id r0 = row_id r' \<and> (terminal r0 \<longrightarrow> r' = r0)) \<or>
           (\<forall>r0 \<in> set (messages self). row_id r0 \<noteq> row_id r')"
  proof (cases "select_pending self now src dst")
    case Nil
    then show ?thesis using r' by (auto simp: get_next_message_def)
  next
    case (Cons row rest)
    then have in_sel: "row \<in> set (select_pending self now src dst)" by simp
    have sub: "set [row] \<subseteq> set (messages self)"
      using in_sel select_pending_set by auto
    have nt: "\<And>r. r \<in> set [row] \<Longrightarrow> \<not> terminal r"
      using in_sel select_pending_set leasable_not_terminal by auto
    have "r' \<in> set (set_status PROCESSING (map row_id [row]) (messages self))"
      using r' Cons by (simp add: get_next_message_def)
    from set_status_keeps [OF d sub nt this] show ?thesis by blast
  qed
qed

lemma keeps_terminal_reset:
  assumes "wf_buffer self"
  shows "keeps_terminal self (reset_processing_messages self)"
proof (rule keeps_terminalI)
  show "distinct (map row_id (messages self))" using assms by (simp add: wf_buffer_def)
  fix r' assume "r' \<in> set (messages (reset_processing_messages self))"
  then show "(\<exists>r0 \<in> set (messages self). row_id r0 = row_id r' \<and> (terminal r0 \<longrightarrow> r' = r0)) \<or>
           (\<forall>r0 \<in> set (messages self). row_id r0 \<noteq> row_id r')"
    by (auto simp: reset_processing_messages_def terminal_def)
qed

lemma keeps_terminal_cleanup:
  assumes "wf_buffer self"
  shows "keeps_terminal self (cleanup self now)"
proof (rule keeps_terminalI)
  show "distinct (map row_id (messages self))" using assms by (simp add: wf_buffer_def)
  fix r' assume "r' \<in> set (messages (cleanup self now))"
  then show "(\<exists>r0 \<in> set (messages self). row_id r0 = row_id r' \<and> (terminal r0 \<longrightarrow> r' = r0)) \<or>
           (\<forall>r0 \<in> set (messages self). row_id r0 \<noteq> row_id r')"
    by (auto simp: cleanup_def Let_def terminal_def expirable_def in_flight_def)
qed

lemma keeps_terminal_add:
  assumes "wf_buffer self"
  shows "keeps_terminal self (snd (add_message self now m))"
proof (rule keeps_terminalI)
  show "distinct (map row_id (messages self))" using assms by (simp add: wf_buffer_def)
  fix r' assume r': "r' \<in> set (messages (snd (add_message self now m)))"
  define self1 where "self1 = (if get_pending_count self \<ge> max_size self
                   then handle_buffer_overflow self now else self)"
  have sub: "set (messages self1) \<subseteq> set (messages self)"
    using overflow_subset [of self now] by (simp add: self1_def)
  have seq: "messages_seq self1 = messages_seq self" by (simp add: self1_def)
  have "r' \<in> set (messages self1) \<or> row_id r' = Suc (messages_seq self)"
    using r' seq insert_message_messages [of self1 now m]
    unfolding add_message_def self1_def [symmetric] by auto
  then show "(\<exists>r0 \<in> set (messages self). row_id r0 = row_id r' \<and> (terminal r0 \<longrightarrow> r' = r0)) \<or>
           (\<forall>r0 \<in> set (messages self). row_id r0 \<noteq> row_id r')"
  proof
    assume "r' \<in> set (messages self1)"
    then show ?thesis using sub by auto
  next
    assume "row_id r' = Suc (messages_seq self)"
    then show ?thesis using assms by (auto simp: wf_buffer_def list_all_iff)
  qed
qed

lemma mark_completed_row:
  assumes "get_row self mid = Some r"
  shows "get_row (snd (mark_completed self now mid)) mid =
           Some (r\<lparr>row_status := COMPLETED, row_processed_at := Some now\<rparr>)"
  using assms
  by (simp add: get_row_def mark_completed_def Let_def find_map_update)

subsection \<open>The overflow policy\<close>

lemma delete_where_limit_removed:
  "r \<in> set rows \<Longrightarrow> r \<notin> set (delete_where_limit n c rows) \<Longrightarrow> c r"
  by (induction n c rows rule: delete_where_limit.induct) (auto split: if_splits)

lemma delete_where_limit_length:
  "length rows - length (delete_where_limit n c rows) \<le> n"
proof (induction n c rows rule: delete_where_limit.induct)
  case (3 n c r rows)
  then show ?case
    by (auto simp: Suc_diff_le [symmetric] intro: le_SucI)
qed simp_all

lemma delete_where_limit_le: "length (delete_where_limit n c rows) \<le> length rows"
  by (induction n c rows rule: delete_where_limit.induct) (auto intro: le_SucI)

lemma delete_where_limit_all:
  "length rows - length (delete_where_limit n c rows) < n \<Longrightarrow>
   r \<in> set (delete_where_limit n c rows) \<Longrightarrow> \<not> c r"
proof (induction n c rows rule: delete_where_limit.induct)
  case (3 n c x rows)
  show ?case
  proof (cases "c x")
    case True
    have "length (delete_where_limit n c rows) \<le> length rows"
      by (rule delete_where_limit_le)
    then have "length rows - length (delete_where_limit n c rows) < n"
      using "3.prems"(1) True by simp
    then show ?thesis using "3.IH"(1) [OF True] "3.prems"(2) True by simp
  next
    case False
    then show ?thesis using "3.IH"(2) "3.prems" by auto
  qed
qed simp_all

lemma sorted_take_drop:
  assumes "sorted (map f xs)" and "x \<in> set (take n xs)" and "y \<in> set (drop n xs)"
  shows "f x \<le> f y"
proof -
  have "sorted (map f (take n xs) @ map f (drop n xs))"
    using assms(1) by (simp flip: map_append)
  then show ?thesis using assms(2,3) by (auto simp: sorted_append)
qed

lemma length_filter_not_in:
  assumes "distinct xs" and "distinct ds" and "set ds \<subseteq> set xs"
  shows "length (filter (\<lambda>r. r \<notin> set ds) xs) = length xs - length ds"
proof -
  have "length (filter (\<lambda>r. r \<in> set ds) xs) = card ({r. r \<in> set ds} \<inter> set xs)"
    using assms(1) by (rule distinct_length_filter)
  also have "{r. r \<in> set ds} \<inter> set xs = set ds" using assms(3) by auto
  also have "card (set ds) = length ds" using assms(2) by (rule distinct_card)
  finally have "length (filter (\<lambda>r. r \<in> set ds) xs) = length ds" .
  moreover have "length xs = length (filter (\<lambda>r. r \<in> set ds) xs) + length (filter (\<lambda>r. r \<notin> set ds) xs)"
    using sum_length_filter_compl [of "\<lambda>r. r \<in> set ds" xs] by simp
  ultimately show ?thesis by simp
qed

lemma oldest_completed_props:
  assumes d: "distinct (map row_id rows)"
  defines "del \<equiv> oldest_completed rows"
  defines "kept \<equiv> filter (\<lambda>r. row_id r \<notin> set (map row_id del)) rows"
  shows "set kept \<subseteq> set rows"
    and "set rows - set kept = set del"
    and "\<forall>r \<in> set del. row_status r = COMPLETED"
    and "length rows - length kept = length del"
    and "length del \<le> 100"
    and "\<forall>x \<in> set del. \<forall>r \<in> set kept. row_status r = COMPLETED \<longrightarrow>
           row_processed_at x \<le> row_processed_at r"
    and "length del < 100 \<longrightarrow> (\<forall>r \<in> set kept. row_status r \<noteq> COMPLETED)"
proof -
  let ?S = "sort_key row_processed_at (filter (\<lambda>r. row_status r = COMPLETED) rows)"
  have dr: "distinct rows" using d by (simp add: distinct_map)
  have del_sub: "set del \<subseteq> set rows"
    by (auto simp: del_def oldest_completed_def dest: in_set_takeD)
  have ids: "row_id r \<in> set (map row_id del) \<longleftrightarrow> r \<in> set del" if "r \<in> set rows" for r
  proof
    assume "row_id r \<in> set (map row_id del)"
    then obtain x where x: "x \<in> set del" "row_id x = row_id r" by auto
    then have "x = r"
      using d that del_sub by (meson distinct_map inj_on_def subsetD)
    then show "r \<in> set del" using x by simp
  qed auto
  have kept_eq: "kept = filter (\<lambda>r. r \<notin> set del) rows"
    unfolding kept_def using ids by (intro filter_cong) auto
  show "set kept \<subseteq> set rows" by (auto simp: kept_def)
  show "set rows - set kept = set del" using del_sub by (auto simp: kept_eq)
  show "\<forall>r \<in> set del. row_status r = COMPLETED"
    by (auto simp: del_def oldest_completed_def dest: in_set_takeD)
  have dS: "distinct ?S" using dr by simp
  have dd: "distinct del" using dS by (simp add: del_def oldest_completed_def)
  show "length rows - length kept = length del"
    using length_filter_not_in [OF dr dd del_sub] del_sub dd dr
    by (simp add: kept_eq) (metis card_mono distinct_card List.finite_set diff_diff_cancel)
  show "length del \<le> 100" by (simp add: del_def oldest_completed_def)
  have srt: "sorted (map row_processed_at ?S)" by (rule sorted_sort_key)
  show "\<forall>x \<in> set del. \<forall>r \<in> set kept. row_status r = COMPLETED \<longrightarrow>
           row_processed_at x \<le> row_processed_at r"
  proof (intro ballI impI)
    fix x r assume x: "x \<in> set del" and r: "r \<in> set kept" and c: "row_status r = COMPLETED"
    have "r \<in> set ?S" using r c by (auto simp: kept_eq)
    then have "r \<in> set (take 100 ?S) \<union> set (drop 100 ?S)"
      by (metis append_take_drop_id set_append)
    moreover have "r \<notin> set (take 100 ?S)" using r by (simp add: kept_eq del_def oldest_completed_def)
    ultimately have "r \<in> set (drop 100 ?S)" by simp
    then show "row_processed_at x \<le> row_processed_at r"
      using sorted_take_drop [OF srt, of x 100 r] x by (simp add: del_def oldest_completed_def)
  qed
  show "length del < 100 \<longrightarrow> (\<forall>r \<in> set kept. row_status r \<noteq> COMPLETED)"
  proof (intro impI ballI)
    fix r assume l: "length del < 100" and r: "r \<in> set kept"
    have "del = ?S" using l by (simp add: del_def oldest_completed_def)
    then show "row_status r \<noteq> COMPLETED" using r by (auto simp: kept_eq)
  qed
qed

subsection \<open>The lease query\<close>







subsection \<open>The analytics on the example inputs\<close>

lemma group_count_single:
  assumes "rows \<noteq> []" and "\<forall>r \<in> set rows. key r = k"
  shows "group_count key rows = [(k, length rows)]"
proof -
  have m: "map key rows = replicate (length rows) k"
    using assms(2) by (simp add: map_replicate_const [symmetric] cong: map_cong)
  have "remdups (map key rows) = [k]"
    unfolding m using assms(1) by (induction rows) auto
  moreover have "filter (\<lambda>r. key r = k) rows = rows"
    using assms(2) by (simp add: filter_id_conv)
  ultimately show ?thesis by (simp add: group_count_def)
qed

lemma route_rows_props:
  "length (route_rows n) = n"
  "\<forall>r \<in> set (route_rows n). in_flight r"
  "\<forall>r \<in> set (route_rows n). (row_source r, row_destination r) = (''mqtt'', ''opcua'')"
  by (auto simp: route_rows_def example_row_def in_flight_def)

lemma route_congestion_single_route:
  assumes "rows \<noteq> []" and "\<forall>r \<in> set rows. in_flight r"
    and "\<forall>r \<in> set rows. (row_source r, row_destination r) = (s, d)"
  shows "route_congestion_check rows =
           (if length rows > 500 then [route_congestion ''medium'' (s @ ''->'' @ d) (length rows)]
            else [])"
proof -
  have f: "filter in_flight rows = rows" using assms(2) by (simp add: filter_id_conv)
  have g: "group_count (\<lambda>r. (row_source r, row_destination r)) rows = [((s, d), length rows)]"
    using assms(1,3) by (rule group_count_single)
  show ?thesis
    by (simp add: route_congestion_check_def congested_routes_def f g)
qed

lemma route_rows_nonempty: "0 < n \<Longrightarrow> route_rows n \<noteq> []"
  using route_rows_props(1) [of n] by auto

lemma route_congestion_route_rows:
  "0 < n \<Longrightarrow> route_congestion_check (route_rows n) =
     (if n > 500 then [route_congestion ''medium'' ''mqtt->opcua'' n] else [])"
  using route_congestion_single_route [OF route_rows_nonempty route_rows_props(2,3), of n]
  by (simp add: route_rows_props(1))

lemma filter_rc_other:
  "filter is_route_congestion (stuck_check rows now) = []"
  "filter is_route_congestion (failure_rate_check rows now) = []"
  "filter is_route_congestion (queue_buildup_check rows) = []"
  "filter is_route_congestion (high_retry_check rows) = []"
  "filter is_route_congestion (slow_processing_check rows now) = []"
  "filter is_route_congestion (route_congestion_check rows) = route_congestion_check rows"
  by (simp_all add: stuck_check_def failure_rate_check_def queue_buildup_check_def
      high_retry_check_def slow_processing_check_def route_congestion_check_def Let_def
      filter_concat o_def)

lemma detect_anomalies_routes: "filter is_route_congestion (detect_anomalies rows now) = route_congestion_check rows"
  by (simp add: detect_anomalies_def filter_rc_other)

lemma pattern_stats_one_row:
  "pattern_stats [(k, n)] key =
     (if k = key then Some \<lparr>mean = real n, stdev = 0, samples = 1\<rparr> else None)"
  by (simp add: pattern_stats_def patterns_def py_mean_def)

lemma monday_history_rows:
  "history_rows monday_history monday_1015 = [((1, 10), 1)]"
  "history_rows monday_history tuesday_1015 = [((1, 10), 1)]"
  by (simp_all add: history_rows_def monday_history_def monday_1015_def tuesday_1015_def
      group_count_def sqlite_weekday_def hour_of_day_def example_row_def)

lemma monday_avg_load: "avg_load monday_history monday_1015 = 1"
  by (simp add: avg_load_def monday_history_def monday_1015_def group_count_def example_row_def)

lemma example_hours:
  "py_weekday monday_1015 = 0" "sqlite_weekday monday_1015 = 1" "hour_of_day monday_1015 = 10"
  "monday_1015 div 3600 * 3600 = 986400"
  "py_weekday tuesday_1015 = 1" "sqlite_weekday tuesday_1015 = 2" "hour_of_day tuesday_1015 = 10"
  "tuesday_1015 div 3600 * 3600 = 1072800"
  by (simp_all add: py_weekday_def sqlite_weekday_def hour_of_day_def monday_1015_def
      tuesday_1015_def)

lemma predict_hour_monday:
  "predict_hour monday_history monday_1015 monday_1015 =
     \<lparr>time = 986400, predicted_messages = 1, confidence = 30, range_min = 0, range_max = 1\<rparr>"
  by (simp add: predict_hour_def monday_history_rows pattern_stats_one_row example_hours
      monday_avg_load py_int_def)

lemma predict_hour_tuesday:
  "predict_hour monday_history tuesday_1015 tuesday_1015 =
     \<lparr>time = 1072800, predicted_messages = 1, confidence = 52, range_min = 1, range_max = 1\<rparr>"
  by (simp add: predict_hour_def monday_history_rows pattern_stats_one_row example_hours
      py_int_def)

text \<open>
  In general: the day number \<open>predict_load\<close> looks up is never the one the history is
  filed under, and every route congestion the detector reports is of severity
  \<open>'medium'\<close> and has more than 500 messages.
\<close>

lemma weekday_shift:
  fixes d :: int
  shows "(d + 3) mod 7 = ((d + 4) mod 7 + 6) mod 7" and "(d + 3) mod 7 \<noteq> (d + 4) mod 7"
  by presburger+

lemma py_weekday_sqlite_weekday: "py_weekday t = (sqlite_weekday t + 6) mod 7"
  unfolding py_weekday_def sqlite_weekday_def by (rule weekday_shift(1))

lemma py_weekday_differs: "py_weekday t \<noteq> sqlite_weekday t"
  unfolding py_weekday_def sqlite_weekday_def by (rule weekday_shift(2))

lemma route_congestion_check_reports:
  assumes "a \<in> set (route_congestion_check rows)"
  shows "\<exists>s d c. a = route_congestion ''medium'' (s @ ''->'' @ d) c \<and> 500 < c"
proof -
  from assms obtain route where "route \<in> set (congested_routes rows)"
    and "a \<in> set (if snd route > 500 then
                      [route_congestion ''medium''
                         (fst (fst route) @ ''->'' @ snd (fst route)) (snd route)]
                    else [])"
    unfolding route_congestion_check_def by auto
  then show ?thesis by (cases "snd route > 500") auto
qed

subsection \<open>\<open>json_loads\<close> reads what \<open>json_dumps\<close> writes: numbers\<close>





















subsection \<open>\<open>json_loads\<close> reads what \<open>json_dumps\<close> writes: strings\<close>






lemma scanstring_encoded:
  "encode_basestring_ascii s @ rest = CHR 0x22 # concat (map escape_char s) @ CHR 0x22 # rest"
  by (simp add: encode_basestring_ascii_def)

subsection \<open>\<open>json_loads\<close> reads what \<open>json_dumps\<close> writes: values\<close>



























subsection \<open>The value column from \<open>add_message\<close> to the leased message\<close>






section \<open>The claims\<close>

text \<open>
  C1, as amended. For every enqueue call made when the pending count is at least
  \<open>max_size\<close>, \<open>add_message\<close> first runs the overflow policy: it deletes the up to 100
  oldest completed rows (\<open>kept\<close> is what that leaves) and, if fewer than 50 were deleted
  and SQLite accepts \<open>DELETE ... LIMIT\<close>, up to 100 rows whose \<open>expire_at\<close> is before
  \<open>now\<close>, of any status. It then inserts the new row and returns its id. Capacity is not
  tested again and a full buffer rejects nothing: \<open>add_message\<close> returns \<open>None\<close> only when
  the \<open>INSERT\<close> itself fails.
\<close>

theorem add_message_when_full_inserts:
  assumes "wf_buffer self"
    and "max_size self \<le> get_pending_count self"
    and "source m = Some src" and "destination m = Some dst"
    and "topic_or_node m = Some ton" and "data_type m = Some dt"
  shows "\<exists>kept row.
     set kept \<subseteq> set (messages self) \<and>
     (\<forall>r \<in> set (messages self) - set kept. row_status r = COMPLETED) \<and>
     length (messages self) - length kept \<le> 100 \<and>
     (\<forall>x \<in> set (messages self) - set kept. \<forall>r \<in> set kept.
        row_status r = COMPLETED \<longrightarrow> row_processed_at x \<le> row_processed_at r) \<and>
     (length (messages self) - length kept < 100 \<longrightarrow>
        (\<forall>r \<in> set kept. row_status r \<noteq> COMPLETED)) \<and>
     (if length (messages self) - length kept < 50 \<and> delete_limit self
      then set (messages (handle_buffer_overflow self now)) \<subseteq> set kept \<and>
           (\<forall>r \<in> set kept - set (messages (handle_buffer_overflow self now)).
              row_expire_at r < now) \<and>
           length kept - length (messages (handle_buffer_overflow self now)) \<le> 100 \<and>
           (length kept - length (messages (handle_buffer_overflow self now)) < 100 \<longrightarrow>
              (\<forall>r \<in> set (messages (handle_buffer_overflow self now)). \<not> row_expire_at r < now))
      else messages (handle_buffer_overflow self now) = kept) \<and>
     fst (add_message self now m) = Some (Suc (messages_seq self)) \<and>
     messages (snd (add_message self now m)) = messages (handle_buffer_overflow self now) @ [row] \<and>
     row_id row = Suc (messages_seq self) \<and> row_status row = status m \<and>
     row_source row = src \<and> row_destination row = dst \<and>
     get_pending_count (snd (add_message self now m)) =
       get_pending_count (handle_buffer_overflow self now) +
       (if status m = PENDING \<or> status m = PROCESSING then 1 else 0)"
proof -
  define kept where
    "kept = filter (\<lambda>r. row_id r \<notin> set (map row_id (oldest_completed (messages self))))
              (messages self)"
  define after where "after = messages (handle_buffer_overflow self now)"
  have d: "distinct (map row_id (messages self))"
    using assms(1) by (simp add: wf_buffer_def)
  note p = oldest_completed_props [OF d, folded kept_def]
  have gone: "set (messages self) - set kept = set (oldest_completed (messages self))"
    by (rule p(2))
  have k1: "\<forall>r \<in> set (messages self) - set kept. row_status r = COMPLETED"
    unfolding gone by (rule p(3))
  have k2: "length (messages self) - length kept \<le> 100"
    unfolding p(4) by (rule p(5))
  have k3: "\<forall>x \<in> set (messages self) - set kept. \<forall>r \<in> set kept.
        row_status r = COMPLETED \<longrightarrow> row_processed_at x \<le> row_processed_at r"
    unfolding gone by (rule p(6))
  have k4: "length (messages self) - length kept < 100 \<longrightarrow>
        (\<forall>r \<in> set kept. row_status r \<noteq> COMPLETED)"
    unfolding p(4) by (rule p(7))
  have after_eq: "after =
      (if length (messages self) - length kept < 50 \<and> delete_limit self
       then delete_where_limit 100 (\<lambda>r. row_expire_at r < now) kept else kept)"
    by (simp add: after_def handle_buffer_overflow_def Let_def kept_def)
  have k5: "if length (messages self) - length kept < 50 \<and> delete_limit self
      then set after \<subseteq> set kept \<and> (\<forall>r \<in> set kept - set after. row_expire_at r < now) \<and>
           length kept - length after \<le> 100 \<and>
           (length kept - length after < 100 \<longrightarrow> (\<forall>r \<in> set after. \<not> row_expire_at r < now))
      else after = kept"
  proof (cases "length (messages self) - length kept < 50 \<and> delete_limit self")
    case True
    then have a: "after = delete_where_limit 100 (\<lambda>r. row_expire_at r < now) kept"
      by (simp add: after_eq)
    have "set after \<subseteq> set kept" unfolding a by (rule delete_where_limit_subset)
    moreover have "\<forall>r \<in> set kept - set after. row_expire_at r < now"
      unfolding a using delete_where_limit_removed [of _ kept 100 "\<lambda>r. row_expire_at r < now"]
      by auto
    moreover have "length kept - length after \<le> 100"
      unfolding a by (rule delete_where_limit_length)
    moreover have "length kept - length after < 100 \<longrightarrow>
        (\<forall>r \<in> set after. \<not> row_expire_at r < now)"
      unfolding a using delete_where_limit_all [of kept 100 "\<lambda>r. row_expire_at r < now"]
      by blast
    ultimately show ?thesis using True by simp
  next
    case False
    then show ?thesis by (auto simp: after_eq)
  qed
  define row where
    "row = \<lparr>row_id = Suc (messages_seq self), row_source = src, row_destination = dst,
            row_topic_or_node = ton,
            row_value = (case val m of PStr s \<Rightarrow> s | v \<Rightarrow> json_dumps v), row_data_type = dt,
            row_mapping_id = mapping_id m, row_status = status m, row_priority = priority m,
            row_retry_count = retry_count m, row_max_retries = max_retries m,
            row_created_at = (case created_at m of None \<Rightarrow> now | Some t \<Rightarrow> t),
            row_processed_at = None,
            row_expire_at = (case expire_at m of
                               None \<Rightarrow> now + 60 * ttl_minutes self | Some t \<Rightarrow> t),
            row_error_message = None,
            row_metadata = (if py_truthy (metadata m) then Some (json_dumps (metadata m))
                            else None)\<rparr>"
  have add: "add_message self now m = insert_message (handle_buffer_overflow self now) now m"
    using assms(2) by (simp add: add_message_def)
  have i1: "fst (add_message self now m) = Some (Suc (messages_seq self))"
    using assms(3-6) by (simp add: add insert_message_def Let_def)
  have i2: "messages (snd (add_message self now m)) = after @ [row]"
    using assms(3-6)
    by (simp add: add insert_message_def Let_def row_def after_def split: option.splits)
  have i3: "get_pending_count (snd (add_message self now m)) =
       get_pending_count (handle_buffer_overflow self now) +
       (if status m = PENDING \<or> status m = PROCESSING then 1 else 0)"
    unfolding get_pending_count_def i2 by (simp add: after_def in_flight_def row_def)
  have r1: "row_id row = Suc (messages_seq self)" and r2: "row_status row = status m"
    and r3: "row_source row = src" and r4: "row_destination row = dst"
    by (simp_all add: row_def)
  show ?thesis
    using p(1) k1 k2 k3 k4 k5 i1 i2 r1 r2 r3 r4 i3 unfolding after_def
    apply -
    apply (rule exI [of _ kept], rule exI [of _ row])
    apply (intro conjI)
                apply assumption+
    done
qed

text \<open>
  The hypotheses of C1 hold of \<open>full_buffer\<close> (size 1, one completed and one pending
  message), and the enqueue returns the id 3.
\<close>

theorem add_message_when_full_inserts_witness:
  "wf_buffer full_buffer \<and> max_size full_buffer \<le> get_pending_count full_buffer \<and>
   source example_message = Some ''mqtt'' \<and> destination example_message = Some ''opcua'' \<and>
   topic_or_node example_message = Some ''ns=2;i=7'' \<and>
   data_type example_message = Some ''Int32'' \<and>
   fst (add_message full_buffer 1003 example_message) = Some 3"
proof -
  have h1: "wf_buffer full_buffer" by code_simp
  have h2: "max_size full_buffer \<le> get_pending_count full_buffer" by code_simp
  have h3: "source example_message = Some ''mqtt''" by (simp add: example_message_def)
  have h4: "destination example_message = Some ''opcua''" by (simp add: example_message_def)
  have h5: "topic_or_node example_message = Some ''ns=2;i=7''"
    by (simp add: example_message_def)
  have h6: "data_type example_message = Some ''Int32''" by (simp add: example_message_def)
  have s: "messages_seq full_buffer = 2" by code_simp
  have "fst (add_message full_buffer 1003 example_message) = Some 3"
    using add_message_when_full_inserts [OF h1 h2 h3 h4 h5 h6, of 1003] s by auto
  then show ?thesis using h1 h2 h3 h4 h5 h6 by simp
qed

text \<open>
  C1 as the specification states it fails: the example buffer (size 1) holds one pending
  message and is still full after the overflow policy, and the enqueue is not rejected:
  it returns the id 2 and the buffer then holds two pending messages.
\<close>

theorem add_message_rejects_counterexample:
  "max_size example_buffer \<le> get_pending_count example_buffer \<and>
   max_size example_buffer \<le> get_pending_count (handle_buffer_overflow example_buffer 1001) \<and>
   fst (add_message example_buffer 1001 example_message) = Some 2 \<and>
   map row_id (messages (snd (add_message example_buffer 1001 example_message))) = [1, 2] \<and>
   get_pending_count (snd (add_message example_buffer 1001 example_message)) = 2"
  by code_simp

text \<open>
  C2, as amended. For a message with \<open>max_retries = 3\<close> and \<open>retry_count = 0\<close>: after
  each of the first two \<open>fail\<close> calls its status is \<open>pending\<close> and no dead-letter row
  has been written for it; the third \<open>fail\<close> call moves it to \<open>failed\<close> and writes one
  dead-letter row, with \<open>retry_count = 3\<close> in both tables. (\<open>mark_failed\<close> compares
  the incremented counter with \<open>max_retries\<close>.)
\<close>

theorem mark_failed_third_call_fails:
  assumes "get_row self mid = Some r" and "row_retry_count r = 0" and "row_max_retries r = 3"
  shows "map_option row_status (get_row (fail_calls self mid [c1]) mid) = Some PENDING \<and>
         map_option row_status (get_row (fail_calls self mid [c1, c2]) mid) = Some PENDING \<and>
         map_option row_status (get_row (fail_calls self mid [c1, c2, c3]) mid) = Some FAILED \<and>
         map_option row_retry_count (get_row (fail_calls self mid [c1, c2, c3]) mid) = Some 3 \<and>
         dead_letters (fail_calls self mid [c1]) mid = dead_letters self mid \<and>
         dead_letters (fail_calls self mid [c1, c2]) mid = dead_letters self mid \<and>
         (\<exists>d. dead_letters (fail_calls self mid [c1, c2, c3]) mid = dead_letters self mid @ [d] \<and>
              fm_original_id d = mid \<and> fm_retry_count d = 3)"
proof -
  let ?b1 = "snd (mark_failed self (fst c1) mid (snd c1))"
  let ?b2 = "snd (mark_failed ?b1 (fst c2) mid (snd c2))"
  let ?b3 = "snd (mark_failed ?b2 (fst c3) mid (snd c3))"
  let ?r1 = "r\<lparr>row_status := PENDING, row_retry_count := 1, row_error_message := snd c1\<rparr>"
  let ?r2 = "r\<lparr>row_status := PENDING, row_retry_count := 2, row_error_message := snd c2\<rparr>"
  let ?r3 = "r\<lparr>row_status := FAILED, row_retry_count := 3, row_error_message := snd c3\<rparr>"
  have r1: "get_row ?b1 mid = Some ?r1"
    using mark_failed_row [OF assms(1), of "fst c1" "snd c1"] assms(2,3) by simp
  have r2: "get_row ?b2 mid = Some ?r2"
    using mark_failed_row [OF r1, of "fst c2" "snd c2"] assms(2,3) by simp
  have r3: "get_row ?b3 mid = Some ?r3"
    using mark_failed_row [OF r2, of "fst c3" "snd c3"] assms(2,3) by simp
  have d1: "dead_letters ?b1 mid = dead_letters self mid"
    using mark_failed_dead_letters [OF assms(1), of "fst c1" "snd c1"] assms(2,3) by simp
  have d2: "dead_letters ?b2 mid = dead_letters self mid"
    using mark_failed_dead_letters [OF r1, of "fst c2" "snd c2"] assms(2,3) d1 by simp
  have d3: "\<exists>d. dead_letters ?b3 mid = dead_letters self mid @ [d] \<and>
              fm_original_id d = mid \<and> fm_retry_count d = 3"
    using mark_failed_dead_letters [OF r2, of "fst c3" "snd c3"] assms(2,3) d2 by simp
  show ?thesis using r1 r2 r3 d1 d2 d3 by simp
qed

text \<open>The hypotheses of C2 hold of the example buffer, and the theorem gives its run.\<close>

theorem mark_failed_third_call_fails_witness:
  "get_row example_buffer 1 = Some example_row \<and> row_retry_count example_row = 0 \<and>
   row_max_retries example_row = 3 \<and>
   map_option row_status
     (get_row (fail_calls example_buffer 1 [(1001, Some ''timeout''), (1002, Some ''timeout'')]) 1)
     = Some PENDING \<and>
   map_option row_status
     (get_row (fail_calls example_buffer 1
        [(1001, Some ''timeout''), (1002, Some ''timeout''), (1003, Some ''timeout'')]) 1)
     = Some FAILED"
proof -
  have h1: "get_row example_buffer 1 = Some example_row" by code_simp
  have h2: "row_retry_count example_row = 0" by code_simp
  have h3: "row_max_retries example_row = 3" by code_simp
  show ?thesis
    using mark_failed_third_call_fails [OF h1 h2 h3, of "(1001, Some ''timeout'')"
        "(1002, Some ''timeout'')" "(1003, Some ''timeout'')"] h1 h2 h3
    by simp
qed

text \<open>
  C2 as the specification states it fails: on the example buffer the third \<open>fail\<close> call
  already leaves the message \<open>failed\<close> with its dead-letter row, and a fourth call
  raises \<open>retry_count\<close> to 4 and writes a second dead-letter row.
\<close>

theorem third_fail_call_counterexample:
  "map_option row_status
     (get_row (fail_calls example_buffer 1 [(1001, None), (1002, None), (1003, None)]) 1)
     = Some FAILED \<and>
   length (dead_letters (fail_calls example_buffer 1 [(1001, None), (1002, None), (1003, None)]) 1) = 1 \<and>
   map_option row_retry_count
     (get_row (fail_calls example_buffer 1 [(1001, None), (1002, None), (1003, None), (1004, None)]) 1)
     = Some 4 \<and>
   length (dead_letters
     (fail_calls example_buffer 1 [(1001, None), (1002, None), (1003, None), (1004, None)]) 1) = 2"
  by code_simp






text \<open>
  C5, as amended. Enqueue, lease (\<open>get_next_message\<close>, \<open>get_pending_messages\<close>),
  \<open>reset_processing_messages\<close> and the sweep never change a completed, failed or expired
  row: under its id the store afterwards holds the same row or, where the sweep or the
  overflow policy deleted it, none. \<open>complete(id)\<close> and \<open>fail(id)\<close> test no status:
  \<open>complete(id)\<close> sets the message to \<open>completed\<close> with \<open>processed_at = now\<close> from every
  status, and \<open>fail(id)\<close> sets it to \<open>pending\<close> when \<open>retry_count + 1 < max_retries\<close> and to
  \<open>failed\<close> otherwise, from every status.
\<close>

theorem terminal_status_guarded_except_complete_and_fail:
  assumes "wf_buffer self" and "get_row self mid = Some r"
  shows "keeps_terminal self (snd (add_message self now m)) \<and>
         keeps_terminal self (snd (get_next_message self now src dst)) \<and>
         keeps_terminal self (snd (get_pending_messages self now n src dst)) \<and>
         keeps_terminal self (reset_processing_messages self) \<and>
         keeps_terminal self (cleanup self now) \<and>
         get_row (snd (mark_completed self now mid)) mid =
           Some (r\<lparr>row_status := COMPLETED, row_processed_at := Some now\<rparr>) \<and>
         map_option row_status (get_row (snd (mark_failed self now mid err)) mid) =
           Some (if row_retry_count r + 1 < row_max_retries r then PENDING else FAILED)"
proof -
  have "map_option row_status (get_row (snd (mark_failed self now mid err)) mid) =
           Some (if row_retry_count r + 1 < row_max_retries r then PENDING else FAILED)"
    using mark_failed_row [OF assms(2), of now err] by auto
  then show ?thesis
    using keeps_terminal_add [OF assms(1)] keeps_terminal_next [OF assms(1)]
      keeps_terminal_lease [OF assms(1)] keeps_terminal_reset [OF assms(1)]
      keeps_terminal_cleanup [OF assms(1)] mark_completed_row [OF assms(2)]
    by simp
qed

text \<open>
  The hypotheses of C5 hold of the buffer whose one message is completed; there \<open>fail\<close>
  moves the completed message back to \<open>pending\<close>, and the sweep leaves it as it is.
\<close>

theorem terminal_status_guarded_witness:
  "wf_buffer completed_buffer \<and>
   get_row completed_buffer 1 =
     Some (example_row\<lparr>row_status := COMPLETED, row_processed_at := Some 1001\<rparr>) \<and>
   keeps_terminal completed_buffer (cleanup completed_buffer 2000) \<and>
   map_option row_status (get_row (snd (mark_failed completed_buffer 2000 1 None)) 1) =
     Some PENDING"
proof -
  have h1: "wf_buffer completed_buffer" by code_simp
  have h2: "get_row completed_buffer 1 =
     Some (example_row\<lparr>row_status := COMPLETED, row_processed_at := Some 1001\<rparr>)"
    by code_simp
  have h3: "row_retry_count example_row = 0" "row_max_retries example_row = 3"
    by (simp_all add: example_row_def)
  show ?thesis
    using terminal_status_guarded_except_complete_and_fail
        [where self = completed_buffer and mid = 1 and now = 2000 and err = None, OF h1 h2]
      h1 h2 h3
    by simp
qed

text \<open>
  C5 as the specification states it fails: a completed message on which \<open>fail\<close> is called
  becomes \<open>pending\<close> again, and a failed message on which \<open>complete\<close> is called becomes
  \<open>completed\<close>.
\<close>

theorem terminal_status_counterexample:
  "map_option row_status (get_row completed_buffer 1) = Some COMPLETED \<and>
   map_option row_status (get_row (snd (mark_failed completed_buffer 1002 1 None)) 1)
     = Some PENDING \<and>
   map_option row_status
     (get_row (fail_calls example_buffer 1 [(1001, None), (1002, None), (1003, None)]) 1)
     = Some FAILED \<and>
   map_option row_status
     (get_row (snd (mark_completed
        (fail_calls example_buffer 1 [(1001, None), (1002, None), (1003, None)]) 1004 1)) 1)
     = Some COMPLETED"
  by code_simp

text \<open>
  C6, as amended. A \<open>fail\<close> call writes a dead-letter row exactly when it leaves the
  message \<open>failed\<close>, whatever the status before the call. So after a run of \<open>n > 0\<close>
  \<open>fail\<close> calls on a message that starts with \<open>retry_count = c\<close> and \<open>max_retries = m\<close> the
  message is \<open>failed\<close> if \<open>m \<le> c + n\<close> and \<open>pending\<close> otherwise, and the run has written
  \<open>n - max 0 (m - c - 1)\<close> dead-letter rows for it: one when the run ends with the call
  that reaches \<open>failed\<close>, and one more for every \<open>fail\<close> call after that.
\<close>

theorem fail_calls_dead_letter_rows:
  assumes "get_row self mid = Some r" and "cs \<noteq> []"
  shows "map_option row_status (get_row (fail_calls self mid cs) mid) =
           Some (if row_max_retries r \<le> row_retry_count r + int (length cs)
                 then FAILED else PENDING) \<and>
         length (dead_letters (fail_calls self mid cs) mid) =
           length (dead_letters self mid) +
           (length cs - nat (row_max_retries r - row_retry_count r - 1))"
  using fail_calls_row [OF assms(1), of cs] fail_calls_dead_letters [OF assms(1), of cs] assms(2)
  by simp

text \<open>
  On the example buffer (\<open>max_retries = 3\<close>) three \<open>fail\<close> calls leave one dead-letter
  row and five leave three.
\<close>

theorem fail_calls_dead_letter_rows_witness:
  "get_row example_buffer 1 = Some example_row \<and>
   [(1001, None), (1002, None), (1003, None), (1004, None), (1005, Some ''late'')] \<noteq> [] \<and>
   map_option row_status
     (get_row (fail_calls example_buffer 1
        [(1001, None), (1002, None), (1003, None), (1004, None), (1005, Some ''late'')]) 1)
     = Some FAILED \<and>
   length (dead_letters (fail_calls example_buffer 1
        [(1001, None), (1002, None), (1003, None), (1004, None), (1005, Some ''late'')]) 1) = 3"
proof -
  have h1: "get_row example_buffer 1 = Some example_row" by code_simp
  have h2: "[(1001 :: int, None :: string option), (1002, None), (1003, None), (1004, None),
             (1005, Some ''late'')] \<noteq> []" by simp
  have h3: "row_retry_count example_row = 0" "row_max_retries example_row = 3"
    "dead_letters example_buffer 1 = []"
    by (simp_all add: example_row_def example_buffer_def dead_letters_def)
  show ?thesis
    using fail_calls_dead_letter_rows [OF h1 h2] h1 h3
    by simp
qed

text \<open>
  C6 as the specification states it fails: after four \<open>fail\<close> calls on the message of the
  example buffer its row is \<open>failed\<close> and \<open>failed_messages\<close> holds two rows for it.
\<close>

theorem dead_letter_once_counterexample:
  "map_option row_status
     (get_row (fail_calls example_buffer 1
        [(1001, Some ''e1''), (1002, Some ''e2''), (1003, Some ''e3''), (1004, Some ''e4'')]) 1)
     = Some FAILED \<and>
   map fm_retry_count (dead_letters (fail_calls example_buffer 1
        [(1001, Some ''e1''), (1002, Some ''e2''), (1003, Some ''e3''), (1004, Some ''e4'')]) 1)
     = [3, 4]"
  by code_simp

text \<open>
  C7, as amended. For every \<open>sweep()\<close> invocation: every message with \<open>expire_at < now\<close>
  (strictly) and status \<open>pending\<close> or \<open>processing\<close> becomes \<open>expired\<close>, and the runtime
  counter \<open>messages_expired\<close> grows by the number of such messages; no dead-letter row is
  written; completed rows with \<open>processed_at\<close> more than 24 hours before \<open>now\<close> are
  deleted, and so are expired rows (those just marked included) with \<open>expire_at\<close> more
  than 7 days before \<open>now\<close>; every other row is unchanged and the rows keep their order.
\<close>

theorem cleanup_sweep:
  "messages (cleanup self now) =
     map (\<lambda>r. if row_expire_at r < now \<and> (row_status r = PENDING \<or> row_status r = PROCESSING)
               then r\<lparr>row_status := EXPIRED\<rparr> else r)
       (filter (\<lambda>r. \<not> ((row_status r = COMPLETED \<and>
                            (case row_processed_at r of
                               None \<Rightarrow> False | Some t \<Rightarrow> t < now - 24 * 3600)) \<or>
                         (row_expire_at r < now - 7 * 24 * 3600 \<and>
                            (row_status r = EXPIRED \<or>
                             row_expire_at r < now \<and>
                               (row_status r = PENDING \<or> row_status r = PROCESSING)))))
          (messages self)) \<and>
   messages_expired (stats (cleanup self now)) =
     messages_expired (stats self) +
     length (filter (\<lambda>r. row_expire_at r < now \<and>
                          (row_status r = PENDING \<or> row_status r = PROCESSING)) (messages self)) \<and>
   messages_failed (stats (cleanup self now)) = messages_failed (stats self) \<and>
   failed_messages (cleanup self now) = failed_messages self"
proof -
  have "messages (cleanup self now) =
     map (\<lambda>r. if row_expire_at r < now \<and> (row_status r = PENDING \<or> row_status r = PROCESSING)
               then r\<lparr>row_status := EXPIRED\<rparr> else r)
       (filter (\<lambda>r. \<not> ((row_status r = COMPLETED \<and>
                            (case row_processed_at r of
                               None \<Rightarrow> False | Some t \<Rightarrow> t < now - 24 * 3600)) \<or>
                         (row_expire_at r < now - 7 * 24 * 3600 \<and>
                            (row_status r = EXPIRED \<or>
                             row_expire_at r < now \<and>
                               (row_status r = PENDING \<or> row_status r = PROCESSING)))))
          (messages self))"
  proof (induction "messages self" arbitrary: self)
    case Nil
    then show ?case by (simp add: cleanup_def Let_def flip: Nil)
  next
    case (Cons r rows)
    have tail: "messages (cleanup (self\<lparr>messages := rows\<rparr>) now) = 
      map (\<lambda>r. if row_expire_at r < now \<and> (row_status r = PENDING \<or> row_status r = PROCESSING)
               then r\<lparr>row_status := EXPIRED\<rparr> else r)
       (filter (\<lambda>r. \<not> ((row_status r = COMPLETED \<and>
                            (case row_processed_at r of
                               None \<Rightarrow> False | Some t \<Rightarrow> t < now - 24 * 3600)) \<or>
                         (row_expire_at r < now - 7 * 24 * 3600 \<and>
                            (row_status r = EXPIRED \<or>
                             row_expire_at r < now \<and>
                               (row_status r = PENDING \<or> row_status r = PROCESSING)))))
          rows)"
      using Cons.hyps(1) [of "self\<lparr>messages := rows\<rparr>"] by simp
    have split: "messages (cleanup self now) =
        messages (cleanup (self\<lparr>messages := [r]\<rparr>) now) @
        messages (cleanup (self\<lparr>messages := rows\<rparr>) now)"
      by (simp add: cleanup_def Let_def flip: Cons.hyps(2))
    show ?case
      unfolding split tail
      by (cases "row_status r")
        (auto simp: cleanup_def Let_def expirable_def in_flight_def old_completed_def
          old_expired_def simp flip: Cons.hyps(2) split: option.splits)
  qed
  moreover have "expirable now =
      (\<lambda>r. row_expire_at r < now \<and> (row_status r = PENDING \<or> row_status r = PROCESSING))"
    by (simp add: fun_eq_iff expirable_def in_flight_def)
  ultimately show ?thesis
    by (simp add: cleanup_def Let_def)
qed

text \<open>
  Scenario S4 on the example buffer, whose message expires at 4600: a sweep at 4601
  marks it expired, counts it and writes no dead-letter row.
\<close>

theorem cleanup_sweep_witness:
  "map row_status (messages (cleanup example_buffer 4601)) = [EXPIRED] \<and>
   messages_expired (stats (cleanup example_buffer 4601)) = 1 \<and>
   failed_messages (cleanup example_buffer 4601) = []"
  using cleanup_sweep [of example_buffer 4601]
  by (simp add: example_buffer_def example_row_def)

text \<open>
  C7 as the specification states it fails at \<open>expire_at = now\<close>: a sweep at 4600 leaves
  the pending message of the example buffer pending and counts nothing.
\<close>

theorem cleanup_boundary_counterexample:
  "row_expire_at example_row \<le> 4600 \<and> row_status example_row = PENDING \<and>
   messages (cleanup example_buffer 4600) = [example_row] \<and>
   messages_expired (stats (cleanup example_buffer 4600)) = 0"
  by code_simp

text \<open>
  C8, on the code. \<open>monday_history\<close> is one message created on a Monday at 10:30, so the
  bucket (Monday, 10h) has history and the bucket (Tuesday, 10h) has none; the first
  query files the message under the key \<open>(1, 10)\<close>, SQLite's number of Monday. For the
  hour 10:00 of the next Monday \<open>predict_load\<close> looks the key \<open>(0, 10)\<close> up, Python's number
  of Monday, finds nothing and falls back to the 7-day average with confidence 30; for
  10:00 of the next Tuesday it looks up \<open>(1, 10)\<close> and predicts from Monday's bucket with
  confidence \<open>min 90 (50 + 2 * 1) = 52\<close>.
\<close>

theorem predict_load_weekday_numbering:
  "history_rows monday_history monday_1015 = [((1, 10), 1)] \<and>
   (sqlite_weekday monday_1015, hour_of_day monday_1015) = (1, 10) \<and>
   (py_weekday monday_1015, hour_of_day monday_1015) = (0, 10) \<and>
   predictions (predict_load monday_history monday_1015 1) =
     [\<lparr>time = 986400, predicted_messages = 1, confidence = 30,
       range_min = 0, range_max = 1\<rparr>] \<and>
   history_rows monday_history tuesday_1015 = [((1, 10), 1)] \<and>
   (sqlite_weekday tuesday_1015, hour_of_day tuesday_1015) = (2, 10) \<and>
   (py_weekday tuesday_1015, hour_of_day tuesday_1015) = (1, 10) \<and>
   predictions (predict_load monday_history tuesday_1015 1) =
     [\<lparr>time = 1072800, predicted_messages = 1, confidence = 52,
       range_min = 1, range_max = 1\<rparr>]"
  by (simp add: monday_history_rows example_hours predict_load_def Let_def
      predict_hour_monday predict_hour_tuesday)

text \<open>
  C9, on the code. With 101 pending messages on the route \<open>mqtt -> opcua\<close> the detector
  reports no route congestion, and with 501 it reports one of severity \<open>'medium'\<close>: the
  loop over the routes above 100 appends an anomaly only above 500, and never with the
  severity \<open>'high'\<close>.
\<close>

theorem route_congestion_only_above_500:
  "length (route_rows 101) = 101 \<and>
   filter is_route_congestion (detect_anomalies (route_rows 101) now) = [] \<and>
   length (route_rows 501) = 501 \<and>
   filter is_route_congestion (detect_anomalies (route_rows 501) now) =
     [route_congestion ''medium'' ''mqtt->opcua'' 501]"
  by (simp add: detect_anomalies_routes route_congestion_route_rows route_rows_props(1))

text \<open>
  C10. The pending count counts the messages whose status is \<open>pending\<close> or
  \<open>processing\<close>: \<open>get_pending_count\<close> returns the number of such rows, \<open>add_message\<close>
  runs the overflow policy exactly when that number is at least \<open>max_size\<close>, and
  \<open>get_statistics\<close> reports that number as \<open>buffer_size\<close> and its quotient by \<open>max_size\<close>,
  times 100, as \<open>utilization_percent\<close> (with \<open>max_size = 0\<close> the division raises and the
  result is the empty dictionary).
\<close>

theorem pending_count_is_pending_plus_processing:
  "get_pending_count self =
     int (length (filter (\<lambda>r. row_status r = PENDING \<or> row_status r = PROCESSING)
                    (messages self))) \<and>
   add_message self now m =
     insert_message
       (if max_size self \<le>
             int (length (filter (\<lambda>r. row_status r = PENDING \<or> row_status r = PROCESSING)
                            (messages self)))
        then handle_buffer_overflow self now else self) now m \<and>
   map_option buffer_size (get_statistics self) =
     (if max_size self = 0 then None
      else Some (int (length (filter (\<lambda>r. row_status r = PENDING \<or> row_status r = PROCESSING)
                                (messages self))))) \<and>
   map_option utilization_percent (get_statistics self) =
     (if max_size self = 0 then None
      else Some (real (length (filter (\<lambda>r. row_status r = PENDING \<or> row_status r = PROCESSING)
                                 (messages self)))
                 / real_of_int (max_size self) * 100))"
proof -
  have e: "in_flight = (\<lambda>r. row_status r = PENDING \<or> row_status r = PROCESSING)"
    by (simp add: fun_eq_iff in_flight_def)
  show ?thesis
    by (simp add: get_pending_count_def e add_message_def get_statistics_def)
qed

text \<open>
  The leased example buffer (size 1) holds no pending message and one in processing: its
  pending count is 1, an enqueue runs the overflow policy, and the statistics report
  \<open>buffer_size = 1\<close> and a utilization of 100 percent.
\<close>

theorem pending_count_witness:
  "map row_status (messages leased_buffer) = [PROCESSING] \<and>
   get_pending_count leased_buffer = 1 \<and>
   add_message leased_buffer 1002 example_message =
     insert_message (handle_buffer_overflow leased_buffer 1002) 1002 example_message \<and>
   map_option buffer_size (get_statistics leased_buffer) = Some 1 \<and>
   map_option utilization_percent (get_statistics leased_buffer) = Some 100"
proof -
  have h1: "messages leased_buffer = [example_row\<lparr>row_status := PROCESSING\<rparr>]" by code_simp
  have h2: "max_size leased_buffer = 1" by code_simp
  show ?thesis
    using pending_count_is_pending_plus_processing [of leased_buffer 1002 example_message]
    by (simp add: h1 h2)
qed

end
